theory Spec2Isabelle
  imports Main "HOL-Library.Word"
begin

section \<open>Go strings\<close>

text \<open>
  A Go string is a sequence of bytes, here a \<^typ>\<open>string\<close>. The functions of package
  \<open>strings\<close> that the two source files call are written out on bytes.
\<close>

definition HasPrefix :: "string \<Rightarrow> string \<Rightarrow> bool" where
  "HasPrefix s p = (take (length p) s = p)"

definition HasSuffix :: "string \<Rightarrow> string \<Rightarrow> bool" where
  "HasSuffix s p = (length p \<le> length s \<and> drop (length s - length p) s = p)"

definition TrimPrefix :: "string \<Rightarrow> string \<Rightarrow> string" where
  "TrimPrefix s p = (if HasPrefix s p then drop (length p) s else s)"

text \<open>\<open>strings.Count(s, "/")\<close>: the separator is one byte, so its non-overlapping
  occurrences are the bytes equal to it.\<close>

definition CountByte :: "string \<Rightarrow> char \<Rightarrow> nat" where
  "CountByte s c = length (filter (\<lambda>b. b = c) s)"

text \<open>
  \<open>strings.TrimSpace\<close> removes the leading and then the trailing white space runes
  (\<open>unicode.IsSpace\<close>). Every white space rune has exactly one valid UTF-8 encoding,
  and an invalid byte decodes to the replacement rune, which is no white space; so a
  string starts (ends) with a white space rune exactly when it starts (ends) with one of
  the byte sequences below.
\<close>

definition spaceSeqs :: "string list" where
  "spaceSeqs =
    [[CHR 0x09], [CHR 0x0A], [CHR 0x0B], [CHR 0x0C], [CHR 0x0D], [CHR 0x20],
     [CHR 0xC2, CHR 0x85], [CHR 0xC2, CHR 0xA0],
     [CHR 0xE1, CHR 0x9A, CHR 0x80],
     [CHR 0xE2, CHR 0x80, CHR 0x80], [CHR 0xE2, CHR 0x80, CHR 0x81],
     [CHR 0xE2, CHR 0x80, CHR 0x82], [CHR 0xE2, CHR 0x80, CHR 0x83],
     [CHR 0xE2, CHR 0x80, CHR 0x84], [CHR 0xE2, CHR 0x80, CHR 0x85],
     [CHR 0xE2, CHR 0x80, CHR 0x86], [CHR 0xE2, CHR 0x80, CHR 0x87],
     [CHR 0xE2, CHR 0x80, CHR 0x88], [CHR 0xE2, CHR 0x80, CHR 0x89],
     [CHR 0xE2, CHR 0x80, CHR 0x8A],
     [CHR 0xE2, CHR 0x80, CHR 0xA8], [CHR 0xE2, CHR 0x80, CHR 0xA9],
     [CHR 0xE2, CHR 0x80, CHR 0xAF],
     [CHR 0xE2, CHR 0x81, CHR 0x9F],
     [CHR 0xE3, CHR 0x80, CHR 0x80]]"

definition isSpaceSeq :: "string \<Rightarrow> bool" where
  "isSpaceSeq bs = (bs \<in> set spaceSeqs)"

fun stripSpace :: "bool \<Rightarrow> string \<Rightarrow> string" where
  "stripSpace back [] = []"
| "stripSpace back (b # s) =
     (let enc = (\<lambda>bs. if back then rev bs else bs) in
      if isSpaceSeq (enc [b]) then stripSpace back s
      else if isSpaceSeq (enc (take 2 (b # s))) then stripSpace back (drop 1 s)
      else if isSpaceSeq (enc (take 3 (b # s))) then stripSpace back (drop 2 s)
      else b # s)"

definition TrimSpace :: "string \<Rightarrow> string" where
  "TrimSpace s = rev (stripSpace True (rev (stripSpace False s)))"

section \<open>The dynamic proto3 flag value (protobuf/dynproto3.go)\<close>

text \<open>
  The value holds a pointer to the current message. The memory is explicit: a heap of
  messages with a bump allocator, and the list of notifier calls launched with \<open>go\<close>.
\<close>

type_synonym addr = nat

record ('m, 'n) memory =
  heap :: "addr \<Rightarrow> 'm option"
  nextFree :: addr
  spawned :: "'n list"

text \<open>
  The encoding library (packages \<open>jsonpb\<close> and \<open>proto\<close>) is an external collaborator
  and a parameter: an unmarshaller takes the input and the contents of the target struct
  and returns its error, if any, with the contents it leaves in the target. The marshaller
  takes its \<open>Indent\<close> option (\<open>OrigName\<close> is set at both call sites).
\<close>

record ('m, 'e) codec =
  jsonpbUnmarshalString :: "string \<Rightarrow> 'm \<Rightarrow> 'e option \<times> 'm"
  protoUnmarshal :: "string \<Rightarrow> 'm \<Rightarrow> 'e option \<times> 'm"
  jsonpbMarshalToString :: "string \<Rightarrow> 'm \<Rightarrow> 'e + string"

text \<open>\<open>structType\<close> is represented by the zero value that \<open>reflect.New\<close> allocates for
  it; \<open>validator\<close> and \<open>notifier\<close> are \<open>None\<close> when the Go field is \<open>nil\<close>.\<close>

record ('m, 'e, 'n) DynProto3Value =
  structType :: 'm
  ptr :: addr
  validator :: "('m \<Rightarrow> 'e option) option"
  notifier :: "(addr \<Rightarrow> addr \<Rightarrow> 'n) option"

definition reflectNew :: "'m \<Rightarrow> ('m, 'n) memory \<Rightarrow> addr \<times> ('m, 'n) memory" where
  "reflectNew z mem =
     (nextFree mem, mem\<lparr>heap := (heap mem)(nextFree mem \<mapsto> z), nextFree := Suc (nextFree mem)\<rparr>)"

text \<open>\<open>Get\<close> returns the instance the pointer refers to; \<open>deref\<close> reads its contents.\<close>

definition Get :: "('m, 'e, 'n) DynProto3Value \<Rightarrow> addr" where
  "Get d = ptr d"

definition deref :: "('m, 'n) memory \<Rightarrow> addr \<Rightarrow> 'm option" where
  "deref mem a = heap mem a"

definition sniffJSON :: "string \<Rightarrow> bool" where
  "sniffJSON input =
     (HasPrefix (TrimSpace input) ''{'' \<and> HasSuffix (TrimSpace input) ''}'')"

definition Set :: "('m, 'e) codec \<Rightarrow> ('m, 'e, 'n) DynProto3Value \<Rightarrow> string \<Rightarrow> ('m, 'n) memory \<Rightarrow>
    'e option \<times> ('m, 'e, 'n) DynProto3Value \<times> ('m, 'n) memory" where
  "Set c d input mem =
     (let (someStruct, mem1) = reflectNew (structType d) mem;
          (err, filled) =
            (if sniffJSON input then jsonpbUnmarshalString c input (structType d)
             else protoUnmarshal c input (structType d));
          mem2 = mem1\<lparr>heap := (heap mem1)(someStruct \<mapsto> filled)\<rparr>
      in case err of
           Some e \<Rightarrow> (Some e, d, mem2)
         | None \<Rightarrow>
            (case (case validator d of None \<Rightarrow> None | Some v \<Rightarrow> v filled) of
               Some e \<Rightarrow> (Some e, d, mem2)
             | None \<Rightarrow>
                (let oldPtr = ptr d;
                     d' = d\<lparr>ptr := someStruct\<rparr>;
                     mem3 = (case notifier d of
                               None \<Rightarrow> mem2
                             | Some f \<Rightarrow> mem2\<lparr>spawned := spawned mem2 @ [f oldPtr someStruct]\<rparr>)
                 in (None, d', mem3))))"

definition WithValidator ::
    "('m, 'e, 'n) DynProto3Value \<Rightarrow> ('m \<Rightarrow> 'e option) \<Rightarrow> ('m, 'e, 'n) DynProto3Value" where
  "WithValidator d v = d\<lparr>validator := Some v\<rparr>"

definition WithNotifier ::
    "('m, 'e, 'n) DynProto3Value \<Rightarrow> (addr \<Rightarrow> addr \<Rightarrow> 'n) \<Rightarrow> ('m, 'e, 'n) DynProto3Value" where
  "WithNotifier d f = d\<lparr>notifier := Some f\<rparr>"

text \<open>\<open>String\<close> marshals the current message without indentation, \<open>PrettyString\<close> with
  two spaces. A pointer outside the heap cannot occur in Go; the model answers \<open>None\<close>.\<close>

definition String :: "('m, 'e) codec \<Rightarrow> ('m, 'e, 'n) DynProto3Value \<Rightarrow> ('m, 'n) memory \<Rightarrow> string option" where
  "String c d mem =
     (case deref mem (Get d) of
        None \<Rightarrow> None
      | Some m \<Rightarrow> (case jsonpbMarshalToString c '''' m of
                    Inl e \<Rightarrow> Some ''ERR''
                  | Inr out \<Rightarrow> Some out))"

definition PrettyString :: "('m, 'e) codec \<Rightarrow> ('m, 'e, 'n) DynProto3Value \<Rightarrow> ('m, 'n) memory \<Rightarrow> string option" where
  "PrettyString c d mem =
     (case deref mem (Get d) of
        None \<Rightarrow> None
      | Some m \<Rightarrow> (case jsonpbMarshalToString c ''  '' m of
                    Inl e \<Rightarrow> Some ''ERR''
                  | Inr out \<Rightarrow> Some out))"

section \<open>The etcd updater\<close>

subsection \<open>The store client (package \<open>etcd/client\<close>) as seen by the updater\<close>

text \<open>
  The errors the client and the context hand back: an \<open>etcd.Error\<close> with its code, a
  \<open>*etcd.ClusterError\<close> with its detail, the two context errors, and anything else.
\<close>

datatype etcd_err =
    EtcdError nat
  | ClusterError string
  | DeadlineExceeded
  | Canceled
  | OtherError string

definition ErrorCodeTestFailed :: nat where
  "ErrorCodeTestFailed = 101"

definition ErrorCodeEventIndexCleared :: nat where
  "ErrorCodeEventIndexCleared = 401"

datatype Node =
  MkNode (Key: string) (Dir: bool) (Value: string) (Nodes: "Node list") (ModifiedIndex: "64 word")

record Response =
  Action :: string
  Node :: Node
  PrevNode :: "Node option"
  Index :: "64 word"

text \<open>
  \<open>KeysAPI\<close> and the watcher it creates are interfaces of an external collaborator. Their
  methods are parameters over a store state \<open>'s\<close> and a watcher state \<open>'w\<close>; each
  takes the context (\<open>True\<close> once cancelled). \<open>keysGet\<close> is always called with
  \<open>Recursive\<close> and \<open>Sort\<close> set, \<open>keysWatcher\<close> with \<open>Recursive\<close> set;
  the last argument of \<open>keysSet\<close> and \<open>keysDelete\<close> is the option \<open>PrevIndex\<close>,
  the second of \<open>keysWatcher\<close> the option \<open>AfterIndex\<close>.
\<close>

record ('s, 'w) KeysAPI =
  keysGet :: "'s \<Rightarrow> bool \<Rightarrow> string \<Rightarrow> (etcd_err + Response) \<times> 's"
  keysSet :: "'s \<Rightarrow> bool \<Rightarrow> string \<Rightarrow> string \<Rightarrow> 64 word \<Rightarrow> etcd_err option \<times> 's"
  keysDelete :: "'s \<Rightarrow> bool \<Rightarrow> string \<Rightarrow> 64 word \<Rightarrow> etcd_err option \<times> 's"
  keysWatcher :: "string \<Rightarrow> 64 word \<Rightarrow> 'w"
  watcherNext :: "'w \<Rightarrow> 's \<Rightarrow> bool \<Rightarrow> (etcd_err + Response) \<times> 'w \<times> 's"

text \<open>The calls the updater makes on the client, in order.\<close>

datatype call =
    CallGet string
  | CallSet string string "64 word"
  | CallDelete string "64 word"
  | CallWatcher string "64 word"
  | CallNext

subsection \<open>The flag registry (package \<open>pflag\<close>)\<close>

text \<open>
  A flag holds a value behind the interface \<open>flag.Value\<close>, whose method
  \<open>Set(string) error\<close> is a parameter: from the current value and the input it gives
  the error, if any, and the value afterwards. \<open>dynamic\<close> is what
  \<open>flagz.IsFlagDynamic\<close> answers.
\<close>

record ('v, 'e) Flag =
  flagValue :: 'v
  valueSet :: "'v \<Rightarrow> string \<Rightarrow> 'e option \<times> 'v"
  dynamic :: bool

subsection \<open>Errors and log lines\<close>

text \<open>Each \<open>fmt.Errorf\<close> of the source is a constructor holding the arguments of its
  format; \<open>ErrFlagValue\<close> wraps what \<open>flag.Value.Set\<close> returned, \<open>ErrEtcd\<close> what the
  client returned.\<close>

datatype 'e error =
    ErrNoValue
  | ErrFlagNotDynamic
  | ErrFlagNotFound string
  | ErrFlagValue 'e
  | ErrEtcd etcd_err
  | ErrAlreadyInitialized
  | ErrNotInitialized
  | ErrAlreadyWatching
  | ErrNotWatching
  | ErrKeyIsDir string
  | ErrKeyNoPrefix string string
  | ErrKeyNotLeaf string string
  | ErrEncountered nat "'e error list"

text \<open>Each \<open>Printf\<close> of the source is a constructor holding the arguments of its format.\<close>

datatype 'e logmsg =
    LogStopping
  | LogIgnoring "'e error"
  | LogWatcherStarted
  | LogIndexError etcd_err
  | LogClusterError string
  | LogDeadline
  | LogWicked etcd_err
  | LogIgnoringAt "'e error" "64 word"
  | LogIgnoringAction string string "64 word"
  | LogIgnoringUpdating string "64 word" "'e error"
  | LogFailedUpdating string "64 word" "'e error"
  | LogUpdated string string "64 word"
  | LogWatcherExited
  | LogRollbackChanged string
  | LogRollbackFailed string etcd_err
  | LogRolledBack string

subsection \<open>The updater\<close>

text \<open>The goroutine launched by \<open>Start\<close>: launched and not yet running, at the head of
  its loop with its local \<open>watcher\<close>, or returned.\<close>

datatype 'w goroutine = NotLaunched | Launched | Looping 'w | Returned

text \<open>
  The struct \<open>Updater\<close>. \<open>flagSet\<close> is the registry the pointer refers to;
  \<open>logger\<close> is what has been printed; \<open>cancelled\<close> is the state of \<open>context\<close>,
  set by \<open>cancel\<close>. Beside the fields of the struct, \<open>store\<close> is the state of the
  store behind \<open>etcdKeys\<close>, \<open>issued\<close> the calls made on it, and \<open>routine\<close> the
  goroutine of \<open>watchForUpdates\<close>.
\<close>

record ('v, 'e, 's, 'w) Updater =
  etcdKeys :: "('s, 'w) KeysAPI"
  flagSet :: "string \<Rightarrow> ('v, 'e) Flag option"
  logger :: "'e logmsg list"
  etcdPath :: string
  lastIndex :: "64 word"
  watching :: bool
  cancelled :: bool
  store :: 's
  issued :: "call list"
  routine :: "'w goroutine"

definition Printf :: "('v, 'e, 's, 'w) Updater \<Rightarrow> 'e logmsg \<Rightarrow> ('v, 'e, 's, 'w) Updater" where
  "Printf u m = u\<lparr>logger := logger u @ [m]\<rparr>"

definition New :: "(string \<Rightarrow> ('v, 'e) Flag option) \<Rightarrow> ('s, 'w) KeysAPI \<Rightarrow> 's \<Rightarrow> string \<Rightarrow>
    ('v, 'e, 's, 'w) Updater" where
  "New flags keysApi st path =
     (let path' = (if \<not> HasSuffix path ''/'' then path @ ''/'' else path)
      in \<lparr>etcdKeys = keysApi, flagSet = flags, logger = [], etcdPath = path',
          lastIndex = 0, watching = False, cancelled = False,
          store = st, issued = [], routine = NotLaunched\<rparr>)"

definition nodeToFlagName :: "('v, 'e, 's, 'w) Updater \<Rightarrow> Node \<Rightarrow> 'e error + string" where
  "nodeToFlagName u node =
     (if Dir node then Inl (ErrKeyIsDir (Key node))
      else if \<not> HasPrefix (Key node) (etcdPath u)
        then Inl (ErrKeyNoPrefix (Key node) (etcdPath u))
      else let truncated = TrimPrefix (Key node) (etcdPath u)
           in if CountByte truncated CHR ''/'' > 0
                then Inl (ErrKeyNotLeaf (Key node) (etcdPath u))
              else Inr truncated)"

definition setFlag :: "('v, 'e, 's, 'w) Updater \<Rightarrow> string \<Rightarrow> string \<Rightarrow> bool \<Rightarrow>
    'e error option \<times> ('v, 'e, 's, 'w) Updater" where
  "setFlag u flagName val onlyDynamic =
     (if val = '''' then (Some ErrNoValue, u)
      else case flagSet u flagName of
             None \<Rightarrow> (Some (ErrFlagNotFound flagName), u)
           | Some flag \<Rightarrow>
               if onlyDynamic \<and> \<not> dynamic flag then (Some ErrFlagNotDynamic, u)
               else let (err, v') = valueSet flag (flagValue flag) val
                    in (map_option ErrFlagValue err,
                        u\<lparr>flagSet := (flagSet u)(flagName \<mapsto> flag\<lparr>flagValue := v'\<rparr>)\<rparr>))"

text \<open>The loop of \<open>readAllFlags\<close> over \<open>resp.Node.Nodes\<close>, with its accumulator
  \<open>errorStrings\<close> (the errors before formatting): \<open>readNode\<close> is one pass through
  its body.\<close>

definition readNode :: "bool \<Rightarrow> Node \<Rightarrow> ('v, 'e, 's, 'w) Updater \<Rightarrow> 'e error list \<Rightarrow>
    ('v, 'e, 's, 'w) Updater \<times> 'e error list" where
  "readNode onlyDynamic node u errorStrings =
     (case nodeToFlagName u node of
        Inl err \<Rightarrow> (Printf u (LogIgnoring err), errorStrings)
      | Inr flagName \<Rightarrow>
          (case setFlag u flagName (Value node) onlyDynamic of
             (Some err, u') \<Rightarrow>
               if err \<noteq> ErrNoValue then (u', errorStrings @ [err])
               else (u', errorStrings)
           | (None, u') \<Rightarrow> (u', errorStrings)))"

fun forNodes :: "bool \<Rightarrow> Node list \<Rightarrow> ('v, 'e, 's, 'w) Updater \<Rightarrow> 'e error list \<Rightarrow>
    ('v, 'e, 's, 'w) Updater \<times> 'e error list" where
  "forNodes onlyDynamic [] u errorStrings = (u, errorStrings)"
| "forNodes onlyDynamic (node # rest) u errorStrings =
     (case readNode onlyDynamic node u errorStrings of
        (u', errorStrings') \<Rightarrow> forNodes onlyDynamic rest u' errorStrings')"

definition readAllFlags :: "('v, 'e, 's, 'w) Updater \<Rightarrow> bool \<Rightarrow>
    'e error option \<times> ('v, 'e, 's, 'w) Updater" where
  "readAllFlags u onlyDynamic =
     (let (r, st) = keysGet (etcdKeys u) (store u) (cancelled u) (etcdPath u);
          u1 = u\<lparr>store := st, issued := issued u @ [CallGet (etcdPath u)]\<rparr>
      in case r of
           Inl err \<Rightarrow> (Some (ErrEtcd err), u1)
         | Inr resp \<Rightarrow>
             (let u2 = u1\<lparr>lastIndex := Index resp\<rparr>;
                  (u3, errorStrings) = forNodes onlyDynamic (Nodes (Node resp)) u2 []
              in if length errorStrings > 0
                   then (Some (ErrEncountered (length errorStrings) errorStrings), u3)
                 else (None, u3)))"

definition Initialize :: "('v, 'e, 's, 'w) Updater \<Rightarrow> 'e error option \<times> ('v, 'e, 's, 'w) Updater" where
  "Initialize u =
     (if lastIndex u \<noteq> 0 then (Some ErrAlreadyInitialized, u)
      else readAllFlags u False)"

definition Start :: "('v, 'e, 's, 'w) Updater \<Rightarrow> 'e error option \<times> ('v, 'e, 's, 'w) Updater" where
  "Start u =
     (if lastIndex u = 0 then (Some ErrNotInitialized, u)
      else if watching u then (Some ErrAlreadyWatching, u)
      else (None, u\<lparr>watching := True, routine := Launched\<rparr>))"

definition Stop :: "('v, 'e, 's, 'w) Updater \<Rightarrow> 'e error option \<times> ('v, 'e, 's, 'w) Updater" where
  "Stop u =
     (if \<not> watching u then (Some ErrNotWatching, u)
      else (None, (Printf u LogStopping)\<lparr>cancelled := True\<rparr>))"

definition rollbackEtcdValue :: "('v, 'e, 's, 'w) Updater \<Rightarrow> string \<Rightarrow> Response \<Rightarrow>
    ('v, 'e, 's, 'w) Updater" where
  "rollbackEtcdValue u flagName resp =
     (let (err, st, c) =
            (case PrevNode resp of
               Some prev \<Rightarrow>
                 (let (e, st) = keysSet (etcdKeys u) (store u) (cancelled u)
                                  (Key (Node resp)) (Value prev) (lastIndex u)
                  in (e, st, CallSet (Key (Node resp)) (Value prev) (lastIndex u)))
             | None \<Rightarrow>
                 (let (e, st) = keysDelete (etcdKeys u) (store u) (cancelled u)
                                  (Key (Node resp)) (lastIndex u)
                  in (e, st, CallDelete (Key (Node resp)) (lastIndex u))));
          u1 = u\<lparr>store := st, issued := issued u @ [c]\<rparr>
      in case err of
           None \<Rightarrow> Printf u1 (LogRolledBack flagName)
         | Some e \<Rightarrow>
             if (case e of EtcdError code \<Rightarrow> code = ErrorCodeTestFailed | _ \<Rightarrow> False)
               then Printf u1 (LogRollbackChanged flagName)
             else Printf u1 (LogRollbackFailed flagName e))"

text \<open>
  One pass through the body of the \<open>for\<close> loop of \<open>watchForUpdates\<close>, from the call of
  \<open>watcher.Next\<close> to the \<open>continue\<close>, the \<open>break\<close> or the end of the body. The result
  says whether the loop goes on (\<open>True\<close>) or was left by \<open>break\<close>. The sleeps take time
  and change nothing else.
\<close>

definition watchBody :: "'w \<Rightarrow> ('v, 'e, 's, 'w) Updater \<Rightarrow> bool \<times> 'w \<times> ('v, 'e, 's, 'w) Updater" where
  "watchBody watcher u =
     (let (r, watcher1, st) = watcherNext (etcdKeys u) watcher (store u) (cancelled u);
          u1 = u\<lparr>store := st, issued := issued u @ [CallNext]\<rparr>
      in case r of
           Inl err \<Rightarrow>
             if (case err of EtcdError code \<Rightarrow> code = ErrorCodeEventIndexCleared | _ \<Rightarrow> False)
               then (let u2 = snd (readAllFlags (Printf u1 (LogIndexError err)) True)
                     in (True, keysWatcher (etcdKeys u2) (etcdPath u2) (lastIndex u2),
                         u2\<lparr>issued := issued u2 @ [CallWatcher (etcdPath u2) (lastIndex u2)]\<rparr>))
             else (case err of
                     ClusterError detail \<Rightarrow> (True, watcher1, Printf u1 (LogClusterError detail))
                   | DeadlineExceeded \<Rightarrow> (True, watcher1, Printf u1 LogDeadline)
                   | Canceled \<Rightarrow> (False, watcher1, u1)
                   | _ \<Rightarrow> (True, watcher1, Printf u1 (LogWicked err)))
         | Inr resp \<Rightarrow>
             (let u2 = u1\<lparr>lastIndex := ModifiedIndex (Node resp)\<rparr>
              in case nodeToFlagName u2 (Node resp) of
                   Inl err \<Rightarrow> (True, watcher1, Printf u2 (LogIgnoringAt err (lastIndex u2)))
                 | Inr flagName \<Rightarrow>
                     (let (err, u3) = setFlag u2 flagName (Value (Node resp)) True
                      in if err = Some ErrNoValue
                           then (True, watcher1,
                                 Printf u3 (LogIgnoringAction (Action resp) flagName (lastIndex u3)))
                         else if err = Some ErrFlagNotDynamic
                           then (True, watcher1,
                                 Printf u3 (LogIgnoringUpdating flagName (lastIndex u3) ErrFlagNotDynamic))
                         else (case err of
                                 Some e \<Rightarrow>
                                   (True, watcher1,
                                    rollbackEtcdValue
                                      (Printf u3 (LogFailedUpdating flagName (lastIndex u3) e))
                                      flagName resp)
                               | None \<Rightarrow>
                                   (True, watcher1,
                                    Printf u3 (LogUpdated flagName (Value (Node resp)) (lastIndex u3)))))))"

text \<open>
  \<open>watchForUpdates\<close> need not return: the loop is left only by \<open>break\<close> or when
  \<open>watching\<close> is false. \<open>watchLoop\<close> runs at most \<open>fuel\<close> passes and answers
  \<open>None\<close> when they do not suffice.
\<close>

fun watchLoop :: "nat \<Rightarrow> 'w \<Rightarrow> ('v, 'e, 's, 'w) Updater \<Rightarrow> ('v, 'e, 's, 'w) Updater option" where
  "watchLoop 0 watcher u =
     (if watching u then None else Some (Printf u LogWatcherExited))"
| "watchLoop (Suc fuel) watcher u =
     (if watching u
        then (case watchBody watcher u of
                (True, watcher', u') \<Rightarrow> watchLoop fuel watcher' u'
              | (False, watcher', u') \<Rightarrow> Some (Printf u' LogWatcherExited))
      else Some (Printf u LogWatcherExited))"

definition watchForUpdates :: "nat \<Rightarrow> ('v, 'e, 's, 'w) Updater \<Rightarrow> ('v, 'e, 's, 'w) Updater option" where
  "watchForUpdates fuel u =
     (let watcher = keysWatcher (etcdKeys u) (etcdPath u) (lastIndex u);
          u1 = Printf (u\<lparr>issued := issued u @ [CallWatcher (etcdPath u) (lastIndex u)]\<rparr>) LogWatcherStarted
      in watchLoop fuel watcher u1)"

text \<open>
  The goroutine runs beside the caller of \<open>Initialize\<close>, \<open>Start\<close> and \<open>Stop\<close>.
  \<open>routineStep\<close> advances it by one stretch: the statements before the loop, one pass
  through the loop, or leaving it.
\<close>

definition routineStep :: "('v, 'e, 's, 'w) Updater \<Rightarrow> ('v, 'e, 's, 'w) Updater" where
  "routineStep u =
     (case routine u of
        NotLaunched \<Rightarrow> u
      | Returned \<Rightarrow> u
      | Launched \<Rightarrow>
          (Printf (u\<lparr>issued := issued u @ [CallWatcher (etcdPath u) (lastIndex u)]\<rparr>) LogWatcherStarted)
            \<lparr>routine := Looping (keysWatcher (etcdKeys u) (etcdPath u) (lastIndex u))\<rparr>
      | Looping watcher \<Rightarrow>
          if watching u
            then (case watchBody watcher u of
                    (True, watcher', u') \<Rightarrow> u'\<lparr>routine := Looping watcher'\<rparr>
                  | (False, watcher', u') \<Rightarrow> (Printf u' LogWatcherExited)\<lparr>routine := Returned\<rparr>)
          else (Printf u LogWatcherExited)\<lparr>routine := Returned\<rparr>)"

text \<open>A history of the updater: calls of its three methods and stretches of the
  goroutine, in any order.\<close>

datatype action = DoInitialize | DoStart | DoStop | DoRoutine

fun perform :: "action \<Rightarrow> ('v, 'e, 's, 'w) Updater \<Rightarrow> ('v, 'e, 's, 'w) Updater" where
  "perform DoInitialize u = snd (Initialize u)"
| "perform DoStart u = snd (Start u)"
| "perform DoStop u = snd (Stop u)"
| "perform DoRoutine u = routineStep u"

fun performAll :: "action list \<Rightarrow> ('v, 'e, 's, 'w) Updater \<Rightarrow> ('v, 'e, 's, 'w) Updater" where
  "performAll [] u = u"
| "performAll (a # as) u = performAll as (perform a u)"

section \<open>Example values\<close>

text \<open>A toy encoding of messages that are strings: the text form wraps the message in
  braces, the binary form is the message itself, and an exclamation mark makes either
  parser fail.\<close>

definition exampleCodec :: "(string, string) codec" where
  "exampleCodec =
     \<lparr>jsonpbUnmarshalString =
        (\<lambda>s z. if sniffJSON s \<and> CHR ''!'' \<notin> set s
                then (None, butlast (tl (TrimSpace s)))
                else (Some ''json: syntax error'', ''?'')),
      protoUnmarshal =
        (\<lambda>s z. if CHR ''!'' \<in> set s then (Some ''proto: bad wire format'', ''?'') else (None, s)),
      jsonpbMarshalToString = (\<lambda>indent m. Inr (''{'' @ m @ ''}''))\<rparr>"

definition exampleValue :: "(string, string, addr \<times> addr) DynProto3Value" where
  "exampleValue = \<lparr>structType = '''', ptr = 0, validator = None, notifier = Some Pair\<rparr>"

definition exampleMemory :: "(string, addr \<times> addr) memory" where
  "exampleMemory = \<lparr>heap = (\<lambda>a. None)(0 \<mapsto> ''a''), nextFree = 1, spawned = []\<rparr>"

definition rejectingValue :: "(string, string, addr \<times> addr) DynProto3Value" where
  "rejectingValue = WithValidator exampleValue (\<lambda>m. if m = ''a'' then Some ''a is not allowed'' else None)"

text \<open>A scripted store: the answers of \<open>Get\<close> and of \<open>watcher.Next\<close> are taken from two
  lists in turn; the watcher remembers the index it waits after.\<close>

type_synonym exampleStore = "(etcd_err + Response) list \<times> (etcd_err + Response) list"

definition exampleKeys :: "(exampleStore, 64 word) KeysAPI" where
  "exampleKeys =
     \<lparr>keysGet = (\<lambda>(gets, events) ctx path.
         case gets of
           [] \<Rightarrow> (Inl (OtherError ''connection refused''), (gets, events))
         | g # gs \<Rightarrow> (g, (gs, events))),
      keysSet = (\<lambda>st ctx key val prevIndex. (if ctx then Some Canceled else None, st)),
      keysDelete = (\<lambda>st ctx key prevIndex. (if ctx then Some Canceled else None, st)),
      keysWatcher = (\<lambda>path afterIndex. afterIndex),
      watcherNext = (\<lambda>w (gets, events) ctx.
         if ctx then (Inl Canceled, w, (gets, events))
         else case events of
                [] \<Rightarrow> (Inl DeadlineExceeded, w, (gets, events))
              | Inl err # es \<Rightarrow> (Inl err, w, (gets, es))
              | Inr resp # es \<Rightarrow> (Inr resp, ModifiedIndex (Node resp), (gets, es)))\<rparr>"

text \<open>A flag value that accepts decimal digits only.\<close>

definition exampleIntSet :: "string \<Rightarrow> string \<Rightarrow> string option \<times> string" where
  "exampleIntSet v s =
     (if s \<noteq> [] \<and> (\<forall>c \<in> set s. c \<in> set ''0123456789'') then (None, s)
      else (Some ''invalid syntax'', v))"

definition exampleFlags :: "string \<Rightarrow> (string, string) Flag option" where
  "exampleFlags =
     [''a'' \<mapsto> \<lparr>flagValue = ''1'', valueSet = exampleIntSet, dynamic = True\<rparr>,
      ''zone'' \<mapsto> \<lparr>flagValue = ''0'', valueSet = exampleIntSet, dynamic = False\<rparr>]"

definition exampleUpdater :: "exampleStore \<Rightarrow> (string, string, exampleStore, 64 word) Updater" where
  "exampleUpdater st = New exampleFlags exampleKeys st ''/config''"

definition exampleSnapshot :: Response where
  "exampleSnapshot =
     \<lparr>Action = ''get'',
      Node = MkNode ''/config'' True ''''
               [MkNode ''/config/a'' False ''5'' [] 3,
                MkNode ''/config/unknown'' False ''1'' [] 4,
                MkNode ''/config/w'' False [] [] 5,
                MkNode ''/config/zone'' False ''fast'' [] 6] 3,
      PrevNode = None, Index = 7\<rparr>"

definition bogusEvent :: Response where
  "bogusEvent =
     \<lparr>Action = ''set'', Node = MkNode ''/config/a'' False ''bogus'' [] 9,
      PrevNode = Some (MkNode ''/config/a'' False ''5'' [] 3), Index = 9\<rparr>"

definition unknownEvent :: Response where
  "unknownEvent =
     \<lparr>Action = ''set'', Node = MkNode ''/config/unknown'' False ''1'' [] 9,
      PrevNode = None, Index = 9\<rparr>"

definition nestedEvent :: Response where
  "nestedEvent =
     \<lparr>Action = ''set'', Node = MkNode ''/config/sub/a'' False ''6'' [] 9,
      PrevNode = None, Index = 9\<rparr>"

text \<open>An updater that has read a snapshot at index 5.\<close>

definition loadedUpdater :: "exampleStore \<Rightarrow> (string, string, exampleStore, 64 word) Updater" where
  "loadedUpdater st = (exampleUpdater st)\<lparr>lastIndex := 5\<rparr>"

text \<open>A store whose indices are never zero: every read answers at index 1 and every
  wait, until the context is cancelled, delivers a change at index 2.\<close>

definition steadyKeys :: "(nat, 64 word) KeysAPI" where
  "steadyKeys =
     \<lparr>keysGet = (\<lambda>n ctx path.
         (Inr \<lparr>Action = ''get'', Node = MkNode path True '''' [] 1, PrevNode = None, Index = 1\<rparr>,
          Suc n)),
      keysSet = (\<lambda>n ctx key val prevIndex. (None, Suc n)),
      keysDelete = (\<lambda>n ctx key prevIndex. (None, Suc n)),
      keysWatcher = (\<lambda>path afterIndex. afterIndex),
      watcherNext = (\<lambda>w n ctx.
         if ctx then (Inl Canceled, w, n)
         else (Inr \<lparr>Action = ''set'', Node = MkNode ''/config/a'' False ''6'' [] 2,
                    PrevNode = None, Index = 2\<rparr>, 2, Suc n))\<rparr>"

definition steadyUpdater :: "(string, string, nat, 64 word) Updater" where
  "steadyUpdater = snd (Initialize (New exampleFlags steadyKeys 0 ''/config''))"

section \<open>What each operation leaves unchanged\<close>

lemma Printf_frame [simp]:
  "etcdKeys (Printf u m) = etcdKeys u" "flagSet (Printf u m) = flagSet u"
  "etcdPath (Printf u m) = etcdPath u" "lastIndex (Printf u m) = lastIndex u"
  "watching (Printf u m) = watching u" "cancelled (Printf u m) = cancelled u"
  "store (Printf u m) = store u" "issued (Printf u m) = issued u"
  "routine (Printf u m) = routine u" "logger (Printf u m) = logger u @ [m]"
  by (simp_all add: Printf_def)

lemma nodeToFlagName_path:
  "etcdPath u' = etcdPath u \<Longrightarrow> nodeToFlagName u' node = nodeToFlagName u node"
  by (simp add: nodeToFlagName_def Let_def)

lemma setFlag_frame [simp]:
  "etcdKeys (snd (setFlag u n v d)) = etcdKeys u"
  "etcdPath (snd (setFlag u n v d)) = etcdPath u"
  "lastIndex (snd (setFlag u n v d)) = lastIndex u"
  "watching (snd (setFlag u n v d)) = watching u"
  "cancelled (snd (setFlag u n v d)) = cancelled u"
  "store (snd (setFlag u n v d)) = store u"
  "issued (snd (setFlag u n v d)) = issued u"
  "routine (snd (setFlag u n v d)) = routine u"
  "logger (snd (setFlag u n v d)) = logger u"
  by (simp_all add: setFlag_def case_prod_beta Let_def split: option.splits)

lemma setFlag_other:
  "n' \<noteq> n \<Longrightarrow> flagSet (snd (setFlag u n v d)) n' = flagSet u n'"
  by (simp add: setFlag_def case_prod_beta Let_def split: option.splits)

lemma setFlag_static:
  "flagSet u n' = Some flag \<Longrightarrow> \<not> dynamic flag \<Longrightarrow> flagSet (snd (setFlag u n v True)) n' = Some flag"
  by (cases "n' = n") (auto simp: setFlag_def case_prod_beta Let_def split: option.splits)

lemma readNode_frame [simp]:
  "etcdKeys (fst (readNode d node u es)) = etcdKeys u"
  "etcdPath (fst (readNode d node u es)) = etcdPath u"
  "lastIndex (fst (readNode d node u es)) = lastIndex u"
  "watching (fst (readNode d node u es)) = watching u"
  "cancelled (fst (readNode d node u es)) = cancelled u"
  "store (fst (readNode d node u es)) = store u"
  "issued (fst (readNode d node u es)) = issued u"
  "routine (fst (readNode d node u es)) = routine u"
proof -
  have s: "\<And>e u'. setFlag u n v d = (e, u') \<Longrightarrow> u' = snd (setFlag u n v d)" for n v
    by simp
  show "etcdKeys (fst (readNode d node u es)) = etcdKeys u"
    "etcdPath (fst (readNode d node u es)) = etcdPath u"
    "lastIndex (fst (readNode d node u es)) = lastIndex u"
    "watching (fst (readNode d node u es)) = watching u"
    "cancelled (fst (readNode d node u es)) = cancelled u"
    "store (fst (readNode d node u es)) = store u"
    "issued (fst (readNode d node u es)) = issued u"
    "routine (fst (readNode d node u es)) = routine u"
    by (auto simp: readNode_def split: sum.splits prod.splits option.splits dest!: s)
qed

lemma forNodes_Cons:
  "forNodes d (node # rest) u es =
     forNodes d rest (fst (readNode d node u es)) (snd (readNode d node u es))"
  by (simp add: case_prod_beta)

lemma forNodes_append:
  "forNodes d (xs @ ys) u es = forNodes d ys (fst (forNodes d xs u es)) (snd (forNodes d xs u es))"
  by (induction xs arbitrary: u es) (simp_all add: case_prod_beta)

lemma forNodes_frame [simp]:
  "etcdKeys (fst (forNodes d nodes u es)) = etcdKeys u"
  "etcdPath (fst (forNodes d nodes u es)) = etcdPath u"
  "lastIndex (fst (forNodes d nodes u es)) = lastIndex u"
  "watching (fst (forNodes d nodes u es)) = watching u"
  "cancelled (fst (forNodes d nodes u es)) = cancelled u"
  "store (fst (forNodes d nodes u es)) = store u"
  "issued (fst (forNodes d nodes u es)) = issued u"
  "routine (fst (forNodes d nodes u es)) = routine u"
  by (induction nodes arbitrary: u es) (simp_all add: case_prod_beta)

lemma readNode_errors_grow:
  "\<exists>zs. snd (readNode d node u es) = es @ zs"
  by (auto simp: readNode_def split: sum.splits prod.splits option.splits)

lemma forNodes_errors_grow:
  "\<exists>zs. snd (forNodes d nodes u es) = es @ zs"
proof (induction nodes arbitrary: u es)
  case Nil
  show ?case by simp
next
  case (Cons x xs)
  obtain z1 where z1: "snd (readNode d x u es) = es @ z1"
    using readNode_errors_grow by blast
  from Cons.IH [of "fst (readNode d x u es)" "snd (readNode d x u es)"]
  obtain z2 where "snd (forNodes d (x # xs) u es) = snd (readNode d x u es) @ z2"
    unfolding forNodes_Cons ..
  with z1 show ?case by simp
qed

lemma readNode_untargeted:
  "nodeToFlagName u node \<noteq> Inr name \<Longrightarrow> flagSet (fst (readNode d node u es)) name = flagSet u name"
proof -
  have s: "\<And>e u' n v. setFlag u n v d = (e, u') \<Longrightarrow> u' = snd (setFlag u n v d)"
    by simp
  show "nodeToFlagName u node \<noteq> Inr name \<Longrightarrow> ?thesis"
    by (auto simp: readNode_def setFlag_other split: sum.splits prod.splits option.splits dest!: s)
qed

lemma forNodes_untargeted:
  "\<forall>n \<in> set nodes. nodeToFlagName u n \<noteq> Inr name \<Longrightarrow>
     flagSet (fst (forNodes d nodes u es)) name = flagSet u name"
proof (induction nodes arbitrary: u es)
  case Nil
  show ?case by simp
next
  case (Cons x xs)
  have "\<forall>n \<in> set xs. nodeToFlagName (fst (readNode d x u es)) n \<noteq> Inr name"
    using Cons.prems nodeToFlagName_path [of "fst (readNode d x u es)" u] by simp
  from Cons.IH [OF this, of "snd (readNode d x u es)"] Cons.prems
  show ?case
    unfolding forNodes_Cons by (simp add: readNode_untargeted)
qed

lemma readNode_static:
  "flagSet u name = Some flag \<Longrightarrow> \<not> dynamic flag \<Longrightarrow>
     flagSet (fst (readNode True node u es)) name = Some flag"
proof -
  have s: "\<And>e u' n v. setFlag u n v True = (e, u') \<Longrightarrow> u' = snd (setFlag u n v True)"
    by simp
  show "flagSet u name = Some flag \<Longrightarrow> \<not> dynamic flag \<Longrightarrow> ?thesis"
    by (auto simp: readNode_def setFlag_static split: sum.splits prod.splits option.splits dest!: s)
qed

lemma forNodes_static:
  "flagSet u name = Some flag \<Longrightarrow> \<not> dynamic flag \<Longrightarrow>
     flagSet (fst (forNodes True nodes u es)) name = Some flag"
proof (induction nodes arbitrary: u es)
  case Nil
  then show ?case by simp
next
  case (Cons x xs)
  have "flagSet (fst (readNode True x u es)) name = Some flag"
    using Cons.prems by (rule readNode_static)
  then show ?case
    unfolding forNodes_Cons using Cons.prems(2) by (rule Cons.IH)
qed

lemma rollbackEtcdValue_frame [simp]:
  "etcdKeys (rollbackEtcdValue u n resp) = etcdKeys u"
  "flagSet (rollbackEtcdValue u n resp) = flagSet u"
  "etcdPath (rollbackEtcdValue u n resp) = etcdPath u"
  "lastIndex (rollbackEtcdValue u n resp) = lastIndex u"
  "watching (rollbackEtcdValue u n resp) = watching u"
  "cancelled (rollbackEtcdValue u n resp) = cancelled u"
  "routine (rollbackEtcdValue u n resp) = routine u"
  by (simp_all add: rollbackEtcdValue_def Let_def case_prod_beta split: option.splits)

lemma rollbackEtcdValue_issued:
  "issued (rollbackEtcdValue u n resp) = issued u @
     [case PrevNode resp of
        Some prev \<Rightarrow> CallSet (Key (Node resp)) (Value prev) (lastIndex u)
      | None \<Rightarrow> CallDelete (Key (Node resp)) (lastIndex u)]"
  by (simp add: rollbackEtcdValue_def Let_def case_prod_beta split: option.splits)

lemma rollbackEtcdValue_logger:
  "\<exists>outcome. logger (rollbackEtcdValue u n resp) = logger u @ [outcome]"
  by (simp add: rollbackEtcdValue_def Let_def case_prod_beta split: option.splits)

lemma readAllFlags_frame [simp]:
  "etcdKeys (snd (readAllFlags u d)) = etcdKeys u"
  "etcdPath (snd (readAllFlags u d)) = etcdPath u"
  "watching (snd (readAllFlags u d)) = watching u"
  "cancelled (snd (readAllFlags u d)) = cancelled u"
  "routine (snd (readAllFlags u d)) = routine u"
  by (simp_all add: readAllFlags_def Let_def case_prod_beta split: sum.splits)

lemma watchBody_frame [simp]:
  "etcdKeys (snd (snd (watchBody w u))) = etcdKeys u"
  "etcdPath (snd (snd (watchBody w u))) = etcdPath u"
  "watching (snd (snd (watchBody w u))) = watching u"
  "cancelled (snd (snd (watchBody w u))) = cancelled u"
  "routine (snd (snd (watchBody w u))) = routine u"
  by (simp_all add: watchBody_def Let_def case_prod_beta
      split: sum.splits etcd_err.splits option.splits)

lemma HasPrefix_iff: "HasPrefix s p = (\<exists>t. s = p @ t)"
proof
  assume "HasPrefix s p"
  then have "s = p @ drop (length p) s"
    by (metis HasPrefix_def append_take_drop_id)
  then show "\<exists>t. s = p @ t" ..
next
  assume "\<exists>t. s = p @ t"
  then show "HasPrefix s p"
    by (auto simp: HasPrefix_def)
qed

lemma TrimPrefix_append: "TrimPrefix (p @ t) p = t"
  by (simp add: TrimPrefix_def HasPrefix_def)

lemma CountByte_pos: "(0 < CountByte s c) = (c \<in> set s)"
  by (induction s) (auto simp: CountByte_def)

section \<open>Properties of the dynamic proto3 value\<close>

lemma sniffJSON_iff:
  "sniffJSON input = (TrimSpace input \<noteq> [] \<and> hd (TrimSpace input) = CHR ''{'' \<and> last (TrimSpace input) = CHR ''}'')"
  apply (cases "TrimSpace input" rule: rev_cases)
  apply (auto simp: sniffJSON_def HasPrefix_def HasSuffix_def)
  apply (case_tac ys; simp)+
  done

text \<open>
  C8. \<open>Set\<close> chooses the decoder by sniffing the input. When the input, trimmed of white
  space, starts with an opening brace and ends with a closing brace, only the JSONPB
  unmarshaller is consulted (the result does not depend on the binary one) and its error is
  the error \<open>Set\<close> returns. Otherwise only the binary unmarshaller is consulted, and its
  error is the one returned.
\<close>

theorem Set_sniff:
  "(TrimSpace input \<noteq> [] \<and> hd (TrimSpace input) = CHR ''{'' \<and> last (TrimSpace input) = CHR ''}''
      \<longrightarrow> Set c d input mem = Set (c\<lparr>protoUnmarshal := other\<rparr>) d input mem
        \<and> (\<forall>e m. jsonpbUnmarshalString c input (structType d) = (Some e, m)
              \<longrightarrow> fst (Set c d input mem) = Some e))
   \<and> (\<not> (TrimSpace input \<noteq> [] \<and> hd (TrimSpace input) = CHR ''{'' \<and> last (TrimSpace input) = CHR ''}'')
      \<longrightarrow> Set c d input mem = Set (c\<lparr>jsonpbUnmarshalString := other\<rparr>) d input mem
        \<and> (\<forall>e m. protoUnmarshal c input (structType d) = (Some e, m)
              \<longrightarrow> fst (Set c d input mem) = Some e))"
  unfolding sniffJSON_iff[symmetric]
  by (auto simp: Set_def reflectNew_def Let_def split: prod.splits option.splits)

lemma ex_trim1: "TrimSpace '' {!} '' = ''{!}''"
  by (simp add: TrimSpace_def isSpaceSeq_def spaceSeqs_def)

lemma ex_trim2: "TrimSpace ''!'' = ''!''"
  by (simp add: TrimSpace_def isSpaceSeq_def spaceSeqs_def)

theorem Set_sniff_witness:
  "(TrimSpace '' {!} '' \<noteq> [] \<and> hd (TrimSpace '' {!} '') = CHR ''{'' \<and> last (TrimSpace '' {!} '') = CHR ''}'')
   \<and> jsonpbUnmarshalString exampleCodec '' {!} '' (structType exampleValue) = (Some ''json: syntax error'', ''?'')
   \<and> fst (Set exampleCodec exampleValue '' {!} '' exampleMemory) = Some ''json: syntax error''
   \<and> \<not> (TrimSpace ''!'' \<noteq> [] \<and> hd (TrimSpace ''!'') = CHR ''{'' \<and> last (TrimSpace ''!'') = CHR ''}'')
   \<and> protoUnmarshal exampleCodec ''!'' (structType exampleValue) = (Some ''proto: bad wire format'', ''?'')
   \<and> fst (Set exampleCodec exampleValue ''!'' exampleMemory) = Some ''proto: bad wire format''"
proof -
  have j: "jsonpbUnmarshalString exampleCodec '' {!} '' (structType exampleValue) = (Some ''json: syntax error'', ''?'')"
    by (simp add: exampleCodec_def)
  have p: "protoUnmarshal exampleCodec ''!'' (structType exampleValue) = (Some ''proto: bad wire format'', ''?'')"
    by (simp add: exampleCodec_def)
  have t1: "TrimSpace '' {!} '' \<noteq> [] \<and> hd (TrimSpace '' {!} '') = CHR ''{'' \<and> last (TrimSpace '' {!} '') = CHR ''}''"
    by (simp add: ex_trim1)
  have t2: "\<not> (TrimSpace ''!'' \<noteq> [] \<and> hd (TrimSpace ''!'') = CHR ''{'' \<and> last (TrimSpace ''!'') = CHR ''}'')"
    by (simp add: ex_trim2)
  from Set_sniff [of "'' {!} ''" exampleCodec exampleValue exampleMemory undefined] t1 j
  have r1: "fst (Set exampleCodec exampleValue '' {!} '' exampleMemory) = Some ''json: syntax error''"
    by blast
  from Set_sniff [of "''!''" exampleCodec exampleValue exampleMemory undefined] t2 p
  have r2: "fst (Set exampleCodec exampleValue ''!'' exampleMemory) = Some ''proto: bad wire format''"
    by blast
  from t1 t2 j p r1 r2 show ?thesis by blast
qed

text \<open>
  C4. When \<open>Set\<close> returns an error, whether from a parser or from the validator, the
  value is unchanged: \<open>Get\<close> returns the same instance with the same contents (indeed
  every instance allocated before the call keeps its contents), and no notifier call has
  been launched.
\<close>

theorem Set_error_unchanged:
  assumes "Set c d input mem = (Some e, d', mem')" and "ptr d < nextFree mem"
  shows "d' = d \<and> Get d' = Get d \<and> deref mem' (Get d') = deref mem (Get d)
         \<and> spawned mem' = spawned mem
         \<and> (\<forall>a < nextFree mem. deref mem' a = deref mem a)"
  using assms
  by (auto simp: Set_def reflectNew_def Let_def Get_def deref_def split: prod.splits option.splits)

text \<open>The hypothesis that the pointer is allocated is kept by \<open>Set\<close>.\<close>

lemma Set_keeps_allocated:
  "Set c d input mem = (r, d', mem') \<Longrightarrow> ptr d < nextFree mem \<Longrightarrow> ptr d' < nextFree mem'"
  by (auto simp: Set_def reflectNew_def Let_def split: prod.splits option.splits)

lemma ex_sniff1: "sniffJSON '' {!} ''"
  by (simp add: sniffJSON_def ex_trim1 HasPrefix_def HasSuffix_def)

theorem Set_error_unchanged_witness:
  "ptr exampleValue < nextFree exampleMemory
   \<and> fst (Set exampleCodec exampleValue '' {!} '' exampleMemory) = Some ''json: syntax error''
   \<and> fst (snd (Set exampleCodec exampleValue '' {!} '' exampleMemory)) = exampleValue
   \<and> deref (snd (snd (Set exampleCodec exampleValue '' {!} '' exampleMemory))) (Get exampleValue) = Some ''a''
   \<and> spawned (snd (snd (Set exampleCodec exampleValue '' {!} '' exampleMemory))) = []"
proof -
  have a: "ptr exampleValue < nextFree exampleMemory"
    by (simp add: exampleValue_def exampleMemory_def)
  have f: "fst (Set exampleCodec exampleValue '' {!} '' exampleMemory) = Some ''json: syntax error''"
    by (simp add: Set_def ex_sniff1 exampleCodec_def reflectNew_def)
  then have s: "Set exampleCodec exampleValue '' {!} '' exampleMemory =
      (Some ''json: syntax error'', fst (snd (Set exampleCodec exampleValue '' {!} '' exampleMemory)),
       snd (snd (Set exampleCodec exampleValue '' {!} '' exampleMemory)))"
    by (metis prod.collapse)
  have m: "deref exampleMemory (Get exampleValue) = Some ''a''" "spawned exampleMemory = []"
    by (simp_all add: deref_def Get_def exampleValue_def exampleMemory_def)
  from Set_error_unchanged [OF s a]
  have r: "fst (snd (Set exampleCodec exampleValue '' {!} '' exampleMemory)) = exampleValue"
    and "deref (snd (snd (Set exampleCodec exampleValue '' {!} '' exampleMemory)))
           (Get (fst (snd (Set exampleCodec exampleValue '' {!} '' exampleMemory))))
         = deref exampleMemory (Get exampleValue)"
    and "spawned (snd (snd (Set exampleCodec exampleValue '' {!} '' exampleMemory))) = spawned exampleMemory"
    by blast+
  then show ?thesis
    using a f m by simp
qed

text \<open>
  C9, as amended. Let the current message serialize to \<open>s\<close>, and let the encoding library
  round-trip it: \<open>s\<close> is delimited by braces and parses into a fresh instance as a message
  equivalent to the current one. If no validator is configured, or the validator accepts the
  parsed message, then \<open>Set\<close> on the output of \<open>String\<close> succeeds and \<open>Get\<close>
  afterwards returns an instance holding an equivalent message.
\<close>

theorem Set_String_roundtrip:
  assumes "deref mem (Get d) = Some m"
      and "jsonpbMarshalToString c '''' m = Inr s"
      and "sniffJSON s"
      and "jsonpbUnmarshalString c s (structType d) = (None, m')"
      and "eqv m' m"
      and "validator d = None \<or> (\<exists>v. validator d = Some v \<and> v m' = None)"
  shows "String c d mem = Some s
         \<and> (\<exists>d' mem' m''. Set c d s mem = (None, d', mem')
               \<and> deref mem' (Get d') = Some m'' \<and> eqv m'' m)"
  using assms
  by (auto simp: String_def Set_def reflectNew_def Let_def Get_def deref_def split: prod.splits option.splits)

lemma ex_sniff2: "sniffJSON ''{a}''"
  by (simp add: sniffJSON_def TrimSpace_def isSpaceSeq_def spaceSeqs_def HasPrefix_def HasSuffix_def)

text \<open>
  C9 as stated fails when a validator rejects the stored message: the message serializes,
  the library round-trips it, and \<open>Set\<close> on the output of \<open>String\<close> returns the
  validator's error.
\<close>

theorem Set_String_roundtrip_counterexample:
  "String exampleCodec rejectingValue exampleMemory = Some ''{a}''
   \<and> jsonpbMarshalToString exampleCodec '''' ''a'' = Inr ''{a}''
   \<and> fst (Set exampleCodec rejectingValue ''{a}'' exampleMemory) = Some ''a is not allowed''"
  by (simp add: String_def Set_def ex_sniff2 reflectNew_def rejectingValue_def WithValidator_def
      exampleValue_def exampleMemory_def exampleCodec_def deref_def Get_def TrimSpace_def isSpaceSeq_def spaceSeqs_def)

theorem Set_String_roundtrip_witness:
  "deref exampleMemory (Get exampleValue) = Some ''a''
   \<and> jsonpbMarshalToString exampleCodec '''' ''a'' = Inr ''{a}''
   \<and> sniffJSON ''{a}''
   \<and> jsonpbUnmarshalString exampleCodec ''{a}'' (structType exampleValue) = (None, ''a'')
   \<and> validator exampleValue = None
   \<and> String exampleCodec exampleValue exampleMemory = Some ''{a}''
   \<and> fst (Set exampleCodec exampleValue ''{a}'' exampleMemory) = None"
proof -
  have 1: "deref exampleMemory (Get exampleValue) = Some ''a''"
    by (simp add: deref_def Get_def exampleValue_def exampleMemory_def)
  have 2: "jsonpbMarshalToString exampleCodec '''' ''a'' = Inr ''{a}''"
    by (simp add: exampleCodec_def)
  have 4: "jsonpbUnmarshalString exampleCodec ''{a}'' (structType exampleValue) = (None, ''a'')"
    by (simp add: exampleCodec_def ex_sniff2 TrimSpace_def isSpaceSeq_def spaceSeqs_def)
  have 5: "validator exampleValue = None \<or> (\<exists>v. validator exampleValue = Some v \<and> v ''a'' = None)"
    by (simp add: exampleValue_def)
  have 6: "''a'' = ''a''" by simp
  from Set_String_roundtrip [of exampleMemory exampleValue "''a''" exampleCodec "''{a}''" "''a''" "(=)", OF 1 2 ex_sniff2 4 6 5]
  show ?thesis
    using 1 2 4 ex_sniff2 by (auto simp: exampleValue_def)
qed

section \<open>Properties of the updater\<close>

text \<open>
  C1. When the watcher delivers a change for a registered dynamic flag and the flag's
  \<open>Set\<close> rejects the value, the pass through the loop makes exactly one call on the store
  after \<open>Next\<close>: a \<open>Set\<close> of the previous value if the event carries one, else a
  \<open>Delete\<close> of the key, either with \<open>PrevIndex\<close> equal to the modified index of the
  rejected change. Whatever that call returns, the loop continues and nothing more is
  called: a test-failed error is logged as a benign outcome, any other error as a failure,
  and no error as a completed rollback.
\<close>

theorem watch_rejected_value_rolls_back:
  assumes nxt: "watcherNext (etcdKeys u) watcher (store u) (cancelled u) = (Inr resp, watcher1, st)"
      and name: "nodeToFlagName u (Node resp) = Inr flagName"
      and val: "Value (Node resp) \<noteq> ''''"
      and flag: "flagSet u flagName = Some flag" "dynamic flag"
      and rej: "valueSet flag (flagValue flag) (Value (Node resp)) = (Some e, v')"
      and rb: "(case PrevNode resp of
                  Some prev \<Rightarrow> keysSet (etcdKeys u) st (cancelled u) (Key (Node resp)) (Value prev)
                                 (ModifiedIndex (Node resp))
                | None \<Rightarrow> keysDelete (etcdKeys u) st (cancelled u) (Key (Node resp))
                            (ModifiedIndex (Node resp))) = (rerr, st')"
      and body: "watchBody watcher u = (continue, watcher', u')"
  shows "continue \<and> watcher' = watcher1
       \<and> issued u' = issued u @
            [CallNext,
             (case PrevNode resp of
                Some prev \<Rightarrow> CallSet (Key (Node resp)) (Value prev) (ModifiedIndex (Node resp))
              | None \<Rightarrow> CallDelete (Key (Node resp)) (ModifiedIndex (Node resp)))]
       \<and> store u' = st'
       \<and> logger u' = logger u @
            [LogFailedUpdating flagName (ModifiedIndex (Node resp)) (ErrFlagValue e),
             (case rerr of
                None \<Rightarrow> LogRolledBack flagName
              | Some re \<Rightarrow> if re = EtcdError ErrorCodeTestFailed then LogRollbackChanged flagName
                           else LogRollbackFailed flagName re)]"
proof -
  let ?u2 = "u\<lparr>store := st, issued := issued u @ [CallNext], lastIndex := ModifiedIndex (Node resp)\<rparr>"
  have n2: "nodeToFlagName ?u2 (Node resp) = Inr flagName"
    using name nodeToFlagName_path [of ?u2 u] by simp
  have sf: "setFlag ?u2 flagName (Value (Node resp)) True =
      (Some (ErrFlagValue e), ?u2\<lparr>flagSet := (flagSet u)(flagName \<mapsto> flag\<lparr>flagValue := v'\<rparr>)\<rparr>)"
    using val flag rej by (simp add: setFlag_def)
  have tf: "(case re of EtcdError code \<Rightarrow> code = ErrorCodeTestFailed | _ \<Rightarrow> False)
      = (re = EtcdError ErrorCodeTestFailed)" for re
    by (cases re) auto
  show ?thesis
    using body rb
    by (cases "PrevNode resp"; cases rerr)
       (auto simp: watchBody_def nxt n2 sf rollbackEtcdValue_def tf Printf_def)
qed

theorem watch_rejected_value_rolls_back_witness:
  "watcherNext (etcdKeys (loadedUpdater ([], [Inr bogusEvent]))) 7
      (store (loadedUpdater ([], [Inr bogusEvent]))) (cancelled (loadedUpdater ([], [Inr bogusEvent])))
     = (Inr bogusEvent, 9, ([], []))
   \<and> nodeToFlagName (loadedUpdater ([], [Inr bogusEvent])) (Node bogusEvent) = Inr ''a''
   \<and> Value (Node bogusEvent) \<noteq> ''''
   \<and> map_option dynamic (flagSet (loadedUpdater ([], [Inr bogusEvent])) ''a'') = Some True
   \<and> exampleIntSet ''1'' (Value (Node bogusEvent)) = (Some ''invalid syntax'', ''1'')
   \<and> issued (snd (snd (watchBody 7 (loadedUpdater ([], [Inr bogusEvent])))))
       = [CallNext, CallSet ''/config/a'' ''5'' 9]
   \<and> logger (snd (snd (watchBody 7 (loadedUpdater ([], [Inr bogusEvent])))))
       = [LogFailedUpdating ''a'' 9 (ErrFlagValue ''invalid syntax''), LogRolledBack ''a'']"
proof -
  let ?u = "loadedUpdater ([], [Inr bogusEvent])"
  let ?flag = "\<lparr>flagValue = ''1'', valueSet = exampleIntSet, dynamic = True\<rparr>"
  have nxt: "watcherNext (etcdKeys ?u) 7 (store ?u) (cancelled ?u) = (Inr bogusEvent, 9, ([], []))"
    by (simp add: loadedUpdater_def exampleUpdater_def New_def exampleKeys_def exampleFlags_def exampleIntSet_def HasSuffix_def HasPrefix_def TrimPrefix_def CountByte_def nodeToFlagName_def bogusEvent_def)
  have name: "nodeToFlagName ?u (Node bogusEvent) = Inr ''a''"
    by (simp add: loadedUpdater_def exampleUpdater_def New_def exampleKeys_def exampleFlags_def exampleIntSet_def HasSuffix_def HasPrefix_def TrimPrefix_def CountByte_def nodeToFlagName_def bogusEvent_def)
  have val: "Value (Node bogusEvent) \<noteq> ''''"
    by (simp add: loadedUpdater_def exampleUpdater_def New_def exampleKeys_def exampleFlags_def exampleIntSet_def HasSuffix_def HasPrefix_def TrimPrefix_def CountByte_def nodeToFlagName_def bogusEvent_def)
  have flag: "flagSet ?u ''a'' = Some ?flag" "dynamic ?flag"
    by (simp_all add: loadedUpdater_def exampleUpdater_def New_def exampleKeys_def exampleFlags_def exampleIntSet_def HasSuffix_def HasPrefix_def TrimPrefix_def CountByte_def nodeToFlagName_def bogusEvent_def)
  have rej: "valueSet ?flag (flagValue ?flag) (Value (Node bogusEvent)) = (Some ''invalid syntax'', ''1'')"
    by (simp add: loadedUpdater_def exampleUpdater_def New_def exampleKeys_def exampleFlags_def exampleIntSet_def HasSuffix_def HasPrefix_def TrimPrefix_def CountByte_def nodeToFlagName_def bogusEvent_def)
  have rb: "(case PrevNode bogusEvent of
               Some prev \<Rightarrow> keysSet (etcdKeys ?u) ([], []) (cancelled ?u) (Key (Node bogusEvent))
                              (Value prev) (ModifiedIndex (Node bogusEvent))
             | None \<Rightarrow> keysDelete (etcdKeys ?u) ([], []) (cancelled ?u) (Key (Node bogusEvent))
                         (ModifiedIndex (Node bogusEvent))) = (None, ([], []))"
    by (simp add: loadedUpdater_def exampleUpdater_def New_def exampleKeys_def exampleFlags_def exampleIntSet_def HasSuffix_def HasPrefix_def TrimPrefix_def CountByte_def nodeToFlagName_def bogusEvent_def)
  have body: "watchBody 7 ?u = (fst (watchBody 7 ?u), fst (snd (watchBody 7 ?u)), snd (snd (watchBody 7 ?u)))"
    by simp
  from watch_rejected_value_rolls_back [OF nxt name val flag rej rb body]
  have "issued (snd (snd (watchBody 7 ?u))) = [CallNext, CallSet ''/config/a'' ''5'' 9]"
    and "logger (snd (snd (watchBody 7 ?u)))
         = [LogFailedUpdating ''a'' 9 (ErrFlagValue ''invalid syntax''), LogRolledBack ''a'']"
    by (simp_all add: loadedUpdater_def exampleUpdater_def New_def exampleKeys_def exampleFlags_def exampleIntSet_def HasSuffix_def HasPrefix_def TrimPrefix_def CountByte_def nodeToFlagName_def bogusEvent_def)
  with nxt name val flag rej show ?thesis
    by simp
qed

text \<open>
  C2. Let \<open>Initialize\<close> read a snapshot, and take any entry of it, with the entries before
  and after it. Whatever happened to the entries before, the entry is processed in the state
  they left, and the entries after it are processed in turn; the result of \<open>Initialize\<close>
  is the one aggregate error that holds every accumulated error, or no error when there is
  none. An entry with an empty value adds no error and leaves the registry as it was. An
  entry for an unregistered flag adds a not-found error, and an entry whose value the flag's
  \<open>Set\<close> rejects adds that error, after the errors accumulated before. An entry that the
  flag's \<open>Set\<close> accepts adds no error, and the value it set is still in the registry when
  \<open>Initialize\<close> returns, whatever error it returns, unless a later entry names the same
  flag.
\<close>

theorem Initialize_accumulates_errors:
  assumes idx: "lastIndex u = 0"
      and get: "keysGet (etcdKeys u) (store u) (cancelled u) (etcdPath u) = (Inr resp, st)"
      and nodes: "Nodes (Node resp) = before @ node # after"
      and pre: "forNodes False before
                  (u\<lparr>store := st, issued := issued u @ [CallGet (etcdPath u)], lastIndex := Index resp\<rparr>) []
                = (ub, eb)"
      and one: "readNode False node ub eb = (un, en)"
      and init: "Initialize u = (r, u')"
  shows "(\<exists>ea. forNodes False after un en = (u', en @ ea)
            \<and> r = (if en @ ea = [] then None
                   else Some (ErrEncountered (length (en @ ea)) (en @ ea))))
       \<and> (Value node = '''' \<longrightarrow> en = eb \<and> flagSet un = flagSet ub)
       \<and> (\<forall>flagName. nodeToFlagName u node = Inr flagName \<and> Value node \<noteq> ''''
              \<and> flagSet ub flagName = None
            \<longrightarrow> en = eb @ [ErrFlagNotFound flagName] \<and> flagSet un = flagSet ub)
       \<and> (\<forall>flagName flag e v'. nodeToFlagName u node = Inr flagName \<and> Value node \<noteq> ''''
              \<and> flagSet ub flagName = Some flag
              \<and> valueSet flag (flagValue flag) (Value node) = (Some e, v')
            \<longrightarrow> en = eb @ [ErrFlagValue e])
       \<and> (\<forall>flagName flag v'. nodeToFlagName u node = Inr flagName \<and> Value node \<noteq> ''''
              \<and> flagSet ub flagName = Some flag
              \<and> valueSet flag (flagValue flag) (Value node) = (None, v')
            \<longrightarrow> en = eb
              \<and> ((\<forall>n \<in> set after. nodeToFlagName u n \<noteq> Inr flagName)
                   \<longrightarrow> flagSet u' flagName = Some (flag\<lparr>flagValue := v'\<rparr>)))"
proof -
  let ?u2 = "u\<lparr>store := st, issued := issued u @ [CallGet (etcdPath u)], lastIndex := Index resp\<rparr>"
  have ub: "ub = fst (forNodes False before ?u2 [])" and eb: "eb = snd (forNodes False before ?u2 [])"
    using pre by simp_all
  have un: "un = fst (readNode False node ub eb)" and en: "en = snd (readNode False node ub eb)"
    using one by simp_all
  have pb: "etcdPath ub = etcdPath u"
    by (simp add: ub)
  have pn: "etcdPath un = etcdPath u"
    by (simp add: un pb)
  have nb: "nodeToFlagName ub n = nodeToFlagName u n" for n
    using pb by (rule nodeToFlagName_path)
  have nn: "nodeToFlagName un n = nodeToFlagName u n" for n
    using pn by (rule nodeToFlagName_path)
  let ?res = "forNodes False after un en"
  have all: "forNodes False (Nodes (Node resp)) ?u2 [] = ?res"
    by (simp add: nodes forNodes_append ub [symmetric] eb [symmetric] one)
  from init have r: "r = (if snd ?res = [] then None
        else Some (ErrEncountered (length (snd ?res)) (snd ?res)))"
    and u': "u' = fst ?res"
    using all by (auto simp: Initialize_def idx readAllFlags_def get Let_def case_prod_beta split: if_splits)
  obtain ea where ea: "snd ?res = en @ ea"
    using forNodes_errors_grow by blast
  have first: "\<exists>ea. ?res = (u', en @ ea)
        \<and> r = (if en @ ea = [] then None else Some (ErrEncountered (length (en @ ea)) (en @ ea)))"
    using r u' ea by (metis prod.collapse)
  have empty: "en = eb \<and> flagSet un = flagSet ub" if "Value node = ''''"
    using that one by (auto simp: readNode_def setFlag_def split: sum.splits)
  have absent: "en = eb @ [ErrFlagNotFound flagName] \<and> flagSet un = flagSet ub"
    if "nodeToFlagName u node = Inr flagName" "Value node \<noteq> ''''" "flagSet ub flagName = None"
    for flagName
    using that one by (auto simp: readNode_def nb setFlag_def)
  have rejected: "en = eb @ [ErrFlagValue e]"
    if "nodeToFlagName u node = Inr flagName" "Value node \<noteq> ''''" "flagSet ub flagName = Some flag"
      "valueSet flag (flagValue flag) (Value node) = (Some e, v')"
    for flagName flag e v'
    using that one by (auto simp: readNode_def nb setFlag_def)
  have applied: "en = eb \<and> flagSet un flagName = Some (flag\<lparr>flagValue := v'\<rparr>)"
    if "nodeToFlagName u node = Inr flagName" "Value node \<noteq> ''''" "flagSet ub flagName = Some flag"
      "valueSet flag (flagValue flag) (Value node) = (None, v')"
    for flagName flag v'
    using that one by (auto simp: readNode_def nb setFlag_def)
  have kept: "flagSet u' flagName = flagSet un flagName"
    if "\<forall>n \<in> set after. nodeToFlagName u n \<noteq> Inr flagName" for flagName
    unfolding u' using that by (intro forNodes_untargeted) (simp add: nn)
  from first empty absent rejected applied kept show ?thesis
    by (intro conjI allI impI) (blast | simp)+
qed

theorem Initialize_accumulates_errors_witness:
  "lastIndex (exampleUpdater ([Inr exampleSnapshot], [])) = 0
   \<and> Nodes (Node exampleSnapshot) =
       [MkNode ''/config/a'' False ''5'' [] 3, MkNode ''/config/unknown'' False ''1'' [] 4,
        MkNode ''/config/w'' False [] [] 5, MkNode ''/config/zone'' False ''fast'' [] 6]
   \<and> fst (Initialize (exampleUpdater ([Inr exampleSnapshot], [])))
       = Some (ErrEncountered 2 [ErrFlagNotFound ''unknown'', ErrFlagValue ''invalid syntax''])
   \<and> flagSet (snd (Initialize (exampleUpdater ([Inr exampleSnapshot], [])))) ''a''
       = Some \<lparr>flagValue = ''5'', valueSet = exampleIntSet, dynamic = True\<rparr>"
proof -
  let ?u = "exampleUpdater ([Inr exampleSnapshot], [])"
  let ?u2 = "?u\<lparr>store := ([], []), issued := issued ?u @ [CallGet (etcdPath ?u)],
                lastIndex := Index exampleSnapshot\<rparr>"
  let ?A = "MkNode ''/config/a'' False ''5'' [] 3"
  let ?U = "MkNode ''/config/unknown'' False ''1'' [] 4"
  let ?W = "MkNode ''/config/w'' False [] [] 5"
  let ?Z = "MkNode ''/config/zone'' False ''fast'' [] 6"
  let ?flag = "\<lparr>flagValue = ''1'', valueSet = exampleIntSet, dynamic = True\<rparr>"
  have idx: "lastIndex ?u = 0"
    by (simp add: exampleUpdater_def New_def exampleKeys_def exampleFlags_def exampleIntSet_def HasSuffix_def HasPrefix_def TrimPrefix_def CountByte_def nodeToFlagName_def exampleSnapshot_def)
  have get: "keysGet (etcdKeys ?u) (store ?u) (cancelled ?u) (etcdPath ?u) = (Inr exampleSnapshot, ([], []))"
    by (simp add: exampleUpdater_def New_def exampleKeys_def exampleFlags_def exampleIntSet_def HasSuffix_def HasPrefix_def TrimPrefix_def CountByte_def nodeToFlagName_def exampleSnapshot_def)
  have nodes: "Nodes (Node exampleSnapshot) = [] @ ?A # [?U, ?W, ?Z]"
    by (simp add: exampleUpdater_def New_def exampleKeys_def exampleFlags_def exampleIntSet_def HasSuffix_def HasPrefix_def TrimPrefix_def CountByte_def nodeToFlagName_def exampleSnapshot_def)
  have pre: "forNodes False [] ?u2 [] = (?u2, [])"
    by simp
  have one: "readNode False ?A ?u2 [] = (fst (readNode False ?A ?u2 []), snd (readNode False ?A ?u2 []))"
    by simp
  have init: "Initialize ?u = (fst (Initialize ?u), snd (Initialize ?u))"
    by simp
  have name: "nodeToFlagName ?u ?A = Inr ''a''"
    by (simp add: exampleUpdater_def New_def exampleKeys_def exampleFlags_def exampleIntSet_def HasSuffix_def HasPrefix_def TrimPrefix_def CountByte_def nodeToFlagName_def exampleSnapshot_def)
  have val: "Value ?A \<noteq> ''''"
    by simp
  have flag: "flagSet ?u2 ''a'' = Some ?flag"
    by (simp add: exampleUpdater_def New_def exampleKeys_def exampleFlags_def exampleIntSet_def HasSuffix_def HasPrefix_def TrimPrefix_def CountByte_def nodeToFlagName_def exampleSnapshot_def)
  have ok: "valueSet ?flag (flagValue ?flag) (Value ?A) = (None, ''5'')"
    by (simp add: exampleUpdater_def New_def exampleKeys_def exampleFlags_def exampleIntSet_def HasSuffix_def HasPrefix_def TrimPrefix_def CountByte_def nodeToFlagName_def exampleSnapshot_def)
  have others: "\<forall>n \<in> set [?U, ?W, ?Z]. nodeToFlagName ?u n \<noteq> Inr ''a''"
    by (simp add: exampleUpdater_def New_def exampleKeys_def exampleFlags_def exampleIntSet_def HasSuffix_def HasPrefix_def TrimPrefix_def CountByte_def nodeToFlagName_def exampleSnapshot_def)
  from Initialize_accumulates_errors [OF idx get nodes pre one init] name val flag ok others
  have kept: "flagSet (snd (Initialize ?u)) ''a'' = Some (?flag\<lparr>flagValue := ''5''\<rparr>)"
    by blast
  have r: "fst (Initialize ?u)
      = Some (ErrEncountered 2 [ErrFlagNotFound ''unknown'', ErrFlagValue ''invalid syntax''])"
    by (simp add: exampleUpdater_def New_def exampleKeys_def exampleFlags_def exampleIntSet_def HasSuffix_def HasPrefix_def TrimPrefix_def CountByte_def nodeToFlagName_def exampleSnapshot_def Initialize_def readAllFlags_def readNode_def setFlag_def Printf_def)
  from idx nodes kept r show ?thesis
    by simp
qed

text \<open>
  C3 as stated fails: a change with a value for a name that is not in the registry is
  rolled back. Here the key is deleted from the store.
\<close>

theorem watch_unknown_flag_counterexample:
  "nodeToFlagName (loadedUpdater ([], [Inr unknownEvent])) (Node unknownEvent) = Inr ''unknown''
   \<and> flagSet (loadedUpdater ([], [Inr unknownEvent])) ''unknown'' = None
   \<and> issued (loadedUpdater ([], [Inr unknownEvent])) = []
   \<and> issued (snd (snd (watchBody 7 (loadedUpdater ([], [Inr unknownEvent])))))
       = [CallNext, CallDelete ''/config/unknown'' 9]"
  by (simp add: loadedUpdater_def exampleUpdater_def New_def exampleKeys_def exampleFlags_def exampleIntSet_def HasSuffix_def HasPrefix_def TrimPrefix_def CountByte_def nodeToFlagName_def unknownEvent_def watchBody_def setFlag_def rollbackEtcdValue_def Printf_def)

text \<open>
  C3, as amended. When the watcher delivers a change whose flag name is not in the registry,
  the loop continues and the registry is unchanged. If the change carries no value it is
  ignored with a log line and no call on the store. If it carries a value, the failure is
  logged and exactly one rollback call is made, as for a rejected value.
\<close>

theorem watch_unknown_flag:
  assumes nxt: "watcherNext (etcdKeys u) watcher (store u) (cancelled u) = (Inr resp, watcher1, st)"
      and name: "nodeToFlagName u (Node resp) = Inr flagName"
      and absent: "flagSet u flagName = None"
      and body: "watchBody watcher u = (continue, watcher', u')"
  shows "continue \<and> watcher' = watcher1 \<and> flagSet u' = flagSet u
       \<and> (Value (Node resp) = '''' \<longrightarrow>
            issued u' = issued u @ [CallNext]
            \<and> logger u' = logger u @
                [LogIgnoringAction (Action resp) flagName (ModifiedIndex (Node resp))])
       \<and> (Value (Node resp) \<noteq> '''' \<longrightarrow>
            issued u' = issued u @
              [CallNext,
               (case PrevNode resp of
                  Some prev \<Rightarrow> CallSet (Key (Node resp)) (Value prev) (ModifiedIndex (Node resp))
                | None \<Rightarrow> CallDelete (Key (Node resp)) (ModifiedIndex (Node resp)))]
            \<and> (\<exists>outcome. logger u' = logger u @
                  [LogFailedUpdating flagName (ModifiedIndex (Node resp)) (ErrFlagNotFound flagName),
                   outcome]))"
proof -
  let ?u2 = "u\<lparr>store := st, issued := issued u @ [CallNext], lastIndex := ModifiedIndex (Node resp)\<rparr>"
  have n2: "nodeToFlagName ?u2 (Node resp) = Inr flagName"
    using name nodeToFlagName_path [of ?u2 u] by simp
  have sf: "setFlag ?u2 flagName (Value (Node resp)) True =
      (if Value (Node resp) = '''' then Some ErrNoValue else Some (ErrFlagNotFound flagName), ?u2)"
    using absent by (simp add: setFlag_def)
  show ?thesis
  proof (cases "Value (Node resp) = []")
    case True
    with sf have sf1: "setFlag ?u2 flagName (Value (Node resp)) True = (Some ErrNoValue, ?u2)"
      by simp
    from body have "continue \<and> watcher' = watcher1
        \<and> u' = Printf ?u2 (LogIgnoringAction (Action resp) flagName (lastIndex ?u2))"
      by (auto simp: watchBody_def nxt n2 sf1)
    with True show ?thesis
      by simp
  next
    case False
    with sf have sf2: "setFlag ?u2 flagName (Value (Node resp)) True = (Some (ErrFlagNotFound flagName), ?u2)"
      by simp
    let ?u3 = "Printf ?u2 (LogFailedUpdating flagName (lastIndex ?u2) (ErrFlagNotFound flagName))"
    from body have r: "continue" "watcher' = watcher1" "u' = rollbackEtcdValue ?u3 flagName resp"
      by (auto simp: watchBody_def nxt n2 sf2)
    obtain outcome where "logger u' = logger ?u3 @ [outcome]"
      unfolding r using rollbackEtcdValue_logger by blast
    with False r show ?thesis
      by (simp add: rollbackEtcdValue_issued split: option.splits)
  qed
qed

theorem watch_unknown_flag_witness:
  "watcherNext (etcdKeys (loadedUpdater ([], [Inr unknownEvent]))) 7
      (store (loadedUpdater ([], [Inr unknownEvent]))) (cancelled (loadedUpdater ([], [Inr unknownEvent])))
     = (Inr unknownEvent, 9, ([], []))
   \<and> nodeToFlagName (loadedUpdater ([], [Inr unknownEvent])) (Node unknownEvent) = Inr ''unknown''
   \<and> flagSet (loadedUpdater ([], [Inr unknownEvent])) ''unknown'' = None
   \<and> Value (Node unknownEvent) \<noteq> ''''
   \<and> fst (watchBody 7 (loadedUpdater ([], [Inr unknownEvent])))
   \<and> issued (snd (snd (watchBody 7 (loadedUpdater ([], [Inr unknownEvent])))))
       = [CallNext, CallDelete ''/config/unknown'' 9]"
proof -
  let ?u = "loadedUpdater ([], [Inr unknownEvent])"
  have nxt: "watcherNext (etcdKeys ?u) 7 (store ?u) (cancelled ?u) = (Inr unknownEvent, 9, ([], []))"
    by (simp add: loadedUpdater_def exampleUpdater_def New_def exampleKeys_def exampleFlags_def exampleIntSet_def HasSuffix_def HasPrefix_def TrimPrefix_def CountByte_def nodeToFlagName_def unknownEvent_def)
  have name: "nodeToFlagName ?u (Node unknownEvent) = Inr ''unknown''"
    by (simp add: loadedUpdater_def exampleUpdater_def New_def exampleKeys_def exampleFlags_def exampleIntSet_def HasSuffix_def HasPrefix_def TrimPrefix_def CountByte_def nodeToFlagName_def unknownEvent_def)
  have absent: "flagSet ?u ''unknown'' = None"
    by (simp add: loadedUpdater_def exampleUpdater_def New_def exampleKeys_def exampleFlags_def exampleIntSet_def HasSuffix_def HasPrefix_def TrimPrefix_def CountByte_def nodeToFlagName_def unknownEvent_def)
  have val: "Value (Node unknownEvent) \<noteq> ''''"
    by (simp add: loadedUpdater_def exampleUpdater_def New_def exampleKeys_def exampleFlags_def exampleIntSet_def HasSuffix_def HasPrefix_def TrimPrefix_def CountByte_def nodeToFlagName_def unknownEvent_def)
  have body: "watchBody 7 ?u = (fst (watchBody 7 ?u), fst (snd (watchBody 7 ?u)), snd (snd (watchBody 7 ?u)))"
    by simp
  from watch_unknown_flag [OF nxt name absent body] val
  have "fst (watchBody 7 ?u)"
    and "issued (snd (snd (watchBody 7 ?u))) = [CallNext, CallDelete ''/config/unknown'' 9]"
    by (simp_all add: loadedUpdater_def exampleUpdater_def New_def exampleKeys_def exampleFlags_def exampleIntSet_def HasSuffix_def HasPrefix_def TrimPrefix_def CountByte_def nodeToFlagName_def unknownEvent_def)
  with nxt name absent val show ?thesis
    by simp
qed

text \<open>
  C7. A node that is a directory, or whose key does not start with the updater's prefix, or
  whose key has a slash after the prefix, is never turned into a flag update:
  \<open>nodeToFlagName\<close> returns an error for it; in the bulk load, wherever the node stands in
  the snapshot, it contributes a log line and nothing else; in the watch loop the pass
  leaves the registry unchanged, calls nothing on the store after \<open>Next\<close>, logs the node
  and continues.
\<close>

theorem skipped_keys_never_update:
  assumes "Dir node \<or> (\<forall>t. Key node \<noteq> etcdPath u @ t)
           \<or> (\<exists>t. Key node = etcdPath u @ t \<and> CHR ''/'' \<in> set t)"
  shows "\<exists>err. nodeToFlagName u node = Inl err
       \<and> readNode onlyDynamic node u es = (Printf u (LogIgnoring err), es)
       \<and> forNodes onlyDynamic (before @ node # after) u es =
           forNodes onlyDynamic after
             (Printf (fst (forNodes onlyDynamic before u es)) (LogIgnoring err))
             (snd (forNodes onlyDynamic before u es))
       \<and> (\<forall>watcher resp watcher1 st continue watcher' u'.
            watcherNext (etcdKeys u) watcher (store u) (cancelled u) = (Inr resp, watcher1, st)
            \<and> Node resp = node \<and> watchBody watcher u = (continue, watcher', u')
            \<longrightarrow> continue \<and> flagSet u' = flagSet u \<and> issued u' = issued u @ [CallNext]
                \<and> logger u' = logger u @ [LogIgnoringAt err (ModifiedIndex node)])"
proof -
  have "\<exists>err. nodeToFlagName u node = Inl err"
  proof (cases "Dir node")
    case True
    then show ?thesis by (simp add: nodeToFlagName_def)
  next
    case notdir: False
    show ?thesis
    proof (cases "HasPrefix (Key node) (etcdPath u)")
      case False
      with notdir show ?thesis by (simp add: nodeToFlagName_def)
    next
      case True
      with assms notdir obtain t where t: "Key node = etcdPath u @ t" "CHR ''/'' \<in> set t"
        by (auto simp: HasPrefix_iff)
      with notdir True show ?thesis
        by (simp add: nodeToFlagName_def TrimPrefix_append CountByte_pos)
    qed
  qed
  then obtain err where err: "nodeToFlagName u node = Inl err" ..
  have one: "readNode d node v zs = (Printf v (LogIgnoring err), zs)" if "etcdPath v = etcdPath u"
    for d and v :: "('a, 'b, 'c, 'd) Updater" and zs
    using err nodeToFlagName_path [OF that, of node] by (simp add: readNode_def)
  have bulk: "forNodes onlyDynamic (before @ node # after) u es =
      forNodes onlyDynamic after
        (Printf (fst (forNodes onlyDynamic before u es)) (LogIgnoring err))
        (snd (forNodes onlyDynamic before u es))"
    by (simp add: forNodes_append one)
  have watch: "continue \<and> flagSet u' = flagSet u \<and> issued u' = issued u @ [CallNext]
      \<and> logger u' = logger u @ [LogIgnoringAt err (ModifiedIndex node)]"
    if nxt: "watcherNext (etcdKeys u) watcher (store u) (cancelled u) = (Inr resp, watcher1, st)"
      and node: "Node resp = node" and body: "watchBody watcher u = (continue, watcher', u')"
    for watcher resp watcher1 st continue watcher' u'
  proof -
    let ?u2 = "u\<lparr>store := st, issued := issued u @ [CallNext], lastIndex := ModifiedIndex (Node resp)\<rparr>"
    have "nodeToFlagName ?u2 (Node resp) = Inl err"
      using err node nodeToFlagName_path [of ?u2 u] by simp
    with body node show ?thesis
      by (auto simp: watchBody_def nxt)
  qed
  from err one [of u] bulk watch show ?thesis
    by blast
qed

theorem skipped_keys_never_update_witness:
  "(\<exists>t. Key (Node nestedEvent) = etcdPath (loadedUpdater ([], [Inr nestedEvent])) @ t \<and> CHR ''/'' \<in> set t)
   \<and> watcherNext (etcdKeys (loadedUpdater ([], [Inr nestedEvent]))) 7
        (store (loadedUpdater ([], [Inr nestedEvent]))) (cancelled (loadedUpdater ([], [Inr nestedEvent])))
       = (Inr nestedEvent, 9, ([], []))
   \<and> fst (watchBody 7 (loadedUpdater ([], [Inr nestedEvent])))
   \<and> flagSet (snd (snd (watchBody 7 (loadedUpdater ([], [Inr nestedEvent])))))
       = flagSet (loadedUpdater ([], [Inr nestedEvent]))
   \<and> issued (snd (snd (watchBody 7 (loadedUpdater ([], [Inr nestedEvent]))))) = [CallNext]"
proof -
  let ?u = "loadedUpdater ([], [Inr nestedEvent])"
  have "Key (Node nestedEvent) = etcdPath ?u @ ''sub/a'' \<and> CHR ''/'' \<in> set ''sub/a''"
    by (simp add: loadedUpdater_def exampleUpdater_def New_def exampleKeys_def exampleFlags_def exampleIntSet_def HasSuffix_def HasPrefix_def TrimPrefix_def CountByte_def nodeToFlagName_def nestedEvent_def)
  then have h: "\<exists>t. Key (Node nestedEvent) = etcdPath ?u @ t \<and> CHR ''/'' \<in> set t" ..
  then have pre: "Dir (Node nestedEvent) \<or> (\<forall>t. Key (Node nestedEvent) \<noteq> etcdPath ?u @ t)
      \<or> (\<exists>t. Key (Node nestedEvent) = etcdPath ?u @ t \<and> CHR ''/'' \<in> set t)"
    by blast
  have nxt: "watcherNext (etcdKeys ?u) 7 (store ?u) (cancelled ?u) = (Inr nestedEvent, 9, ([], []))"
    by (simp add: loadedUpdater_def exampleUpdater_def New_def exampleKeys_def exampleFlags_def exampleIntSet_def HasSuffix_def HasPrefix_def TrimPrefix_def CountByte_def nodeToFlagName_def nestedEvent_def)
  have body: "watchBody 7 ?u = (fst (watchBody 7 ?u), fst (snd (watchBody 7 ?u)), snd (snd (watchBody 7 ?u)))"
    by simp
  have i: "issued ?u = []"
    by (simp add: loadedUpdater_def exampleUpdater_def New_def exampleKeys_def exampleFlags_def exampleIntSet_def HasSuffix_def HasPrefix_def TrimPrefix_def CountByte_def nodeToFlagName_def nestedEvent_def)
  from skipped_keys_never_update [OF pre, of False "[]" "[]" "[]"] nxt body
  have "fst (watchBody 7 ?u) \<and> flagSet (snd (snd (watchBody 7 ?u))) = flagSet ?u
      \<and> issued (snd (snd (watchBody 7 ?u))) = issued ?u @ [CallNext]"
    by blast
  with h nxt i show ?thesis
    by simp
qed

text \<open>
  C6. When \<open>Next\<close> fails with the event-index-cleared error, the pass re-reads all flags
  with \<open>onlyDynamic\<close> set: every registered flag that is not marked dynamic is left as it
  was, whatever the snapshot holds, and when the read returns a snapshot the new watcher is
  created with \<open>AfterIndex\<close> equal to the index of that snapshot.
\<close>

theorem recovery_read_only_dynamic:
  assumes nxt: "watcherNext (etcdKeys u) watcher (store u) (cancelled u)
                  = (Inl (EtcdError ErrorCodeEventIndexCleared), watcher1, st)"
      and body: "watchBody watcher u = (continue, watcher', u')"
  shows "continue
       \<and> (\<forall>name flag. flagSet u name = Some flag \<and> \<not> dynamic flag \<longrightarrow> flagSet u' name = Some flag)
       \<and> (\<forall>resp st'. keysGet (etcdKeys u) st (cancelled u) (etcdPath u) = (Inr resp, st')
            \<longrightarrow> watcher' = keysWatcher (etcdKeys u) (etcdPath u) (Index resp)
              \<and> lastIndex u' = Index resp
              \<and> issued u' = issued u @
                  [CallNext, CallGet (etcdPath u), CallWatcher (etcdPath u) (Index resp)])"
proof -
  let ?u1 = "Printf (u\<lparr>store := st, issued := issued u @ [CallNext]\<rparr>)
               (LogIndexError (EtcdError ErrorCodeEventIndexCleared))"
  let ?u2 = "snd (readAllFlags ?u1 True)"
  have b: "watchBody watcher u =
      (True, keysWatcher (etcdKeys ?u2) (etcdPath ?u2) (lastIndex ?u2),
       ?u2\<lparr>issued := issued ?u2 @ [CallWatcher (etcdPath ?u2) (lastIndex ?u2)]\<rparr>)"
    by (simp add: watchBody_def nxt Let_def)
  have static: "flagSet ?u2 name = Some flag" if "flagSet u name = Some flag" "\<not> dynamic flag" for name flag
    using that by (simp add: readAllFlags_def Let_def case_prod_beta forNodes_static split: sum.splits)
  have fresh: "lastIndex ?u2 = Index resp \<and> issued ?u2 = issued u @ [CallNext, CallGet (etcdPath u)]"
    if "keysGet (etcdKeys u) st (cancelled u) (etcdPath u) = (Inr resp, st')" for resp st'
    using that by (simp add: readAllFlags_def Let_def case_prod_beta)
  from body b static fresh show ?thesis
    by auto
qed

theorem recovery_read_only_dynamic_witness:
  "watcherNext (etcdKeys (loadedUpdater ([Inr exampleSnapshot], [Inl (EtcdError 401)]))) 5
        (store (loadedUpdater ([Inr exampleSnapshot], [Inl (EtcdError 401)])))
        (cancelled (loadedUpdater ([Inr exampleSnapshot], [Inl (EtcdError 401)])))
       = (Inl (EtcdError ErrorCodeEventIndexCleared), 5, ([Inr exampleSnapshot], []))
   \<and> map_option dynamic (flagSet (loadedUpdater ([Inr exampleSnapshot], [Inl (EtcdError 401)])) ''zone'')
       = Some False
   \<and> keysGet (etcdKeys (loadedUpdater ([Inr exampleSnapshot], [Inl (EtcdError 401)])))
        ([Inr exampleSnapshot], []) (cancelled (loadedUpdater ([Inr exampleSnapshot], [Inl (EtcdError 401)])))
        (etcdPath (loadedUpdater ([Inr exampleSnapshot], [Inl (EtcdError 401)])))
       = (Inr exampleSnapshot, ([], []))
   \<and> flagSet (snd (snd (watchBody 5 (loadedUpdater ([Inr exampleSnapshot], [Inl (EtcdError 401)]))))) ''zone''
       = flagSet (loadedUpdater ([Inr exampleSnapshot], [Inl (EtcdError 401)])) ''zone''
   \<and> fst (snd (watchBody 5 (loadedUpdater ([Inr exampleSnapshot], [Inl (EtcdError 401)])))) = 7
   \<and> lastIndex (snd (snd (watchBody 5 (loadedUpdater ([Inr exampleSnapshot], [Inl (EtcdError 401)]))))) = 7"
proof -
  let ?u = "loadedUpdater ([Inr exampleSnapshot], [Inl (EtcdError 401)])"
  let ?flag = "\<lparr>flagValue = ''0'', valueSet = exampleIntSet, dynamic = False\<rparr>"
  have nxt: "watcherNext (etcdKeys ?u) 5 (store ?u) (cancelled ?u)
      = (Inl (EtcdError ErrorCodeEventIndexCleared), 5, ([Inr exampleSnapshot], []))"
    by (simp add: loadedUpdater_def exampleUpdater_def New_def exampleKeys_def exampleFlags_def exampleIntSet_def HasSuffix_def HasPrefix_def TrimPrefix_def CountByte_def nodeToFlagName_def exampleSnapshot_def ErrorCodeEventIndexCleared_def)
  have body: "watchBody 5 ?u = (fst (watchBody 5 ?u), fst (snd (watchBody 5 ?u)), snd (snd (watchBody 5 ?u)))"
    by simp
  have flag: "flagSet ?u ''zone'' = Some ?flag" "\<not> dynamic ?flag"
    by (simp_all add: loadedUpdater_def exampleUpdater_def New_def exampleKeys_def exampleFlags_def exampleIntSet_def HasSuffix_def HasPrefix_def TrimPrefix_def CountByte_def nodeToFlagName_def exampleSnapshot_def)
  have get: "keysGet (etcdKeys ?u) ([Inr exampleSnapshot], []) (cancelled ?u) (etcdPath ?u)
      = (Inr exampleSnapshot, ([], []))"
    by (simp add: loadedUpdater_def exampleUpdater_def New_def exampleKeys_def exampleFlags_def exampleIntSet_def HasSuffix_def HasPrefix_def TrimPrefix_def CountByte_def nodeToFlagName_def exampleSnapshot_def)
  have idx: "Index exampleSnapshot = 7" "keysWatcher (etcdKeys ?u) (etcdPath ?u) 7 = 7"
    by (simp_all add: loadedUpdater_def exampleUpdater_def New_def exampleKeys_def exampleFlags_def exampleIntSet_def HasSuffix_def HasPrefix_def TrimPrefix_def CountByte_def nodeToFlagName_def exampleSnapshot_def)
  from recovery_read_only_dynamic [OF nxt body] flag get
  have "flagSet (snd (snd (watchBody 5 ?u))) ''zone'' = Some ?flag"
    and "fst (snd (watchBody 5 ?u)) = keysWatcher (etcdKeys ?u) (etcdPath ?u) (Index exampleSnapshot)"
    and "lastIndex (snd (snd (watchBody 5 ?u))) = Index exampleSnapshot"
    by blast+
  with nxt flag get idx show ?thesis
    by simp
qed

lemma New_fresh:
  "lastIndex (New flags api st path) = 0" "\<not> watching (New flags api st path)"
  by (simp_all add: New_def Let_def)

lemma Initialize_lastIndex:
  "lastIndex u = 0 \<Longrightarrow>
     (case keysGet (etcdKeys u) (store u) (cancelled u) (etcdPath u) of
        (Inl err, st) \<Rightarrow> fst (Initialize u) = Some (ErrEtcd err) \<and> lastIndex (snd (Initialize u)) = 0
      | (Inr resp, st) \<Rightarrow> lastIndex (snd (Initialize u)) = Index resp)"
  by (simp add: Initialize_def readAllFlags_def Let_def case_prod_beta split: sum.splits prod.splits)

text \<open>
  C5, as amended. On a new updater \<open>Start\<close> returns the not-initialized error and
  \<open>Stop\<close> the not-watching error. \<open>Start\<close> returns the not-initialized error exactly
  while \<open>lastIndex\<close> is zero, and \<open>Initialize\<close> returns the already-initialized error exactly when it is not;
  \<open>Stop\<close> returns the not-watching error when \<open>watching\<close> is false; \<open>Start\<close> returns
  the already-watching error when \<open>watching\<close> is true and \<open>lastIndex\<close> is not zero.
  \<open>Initialize\<close> on a zero \<open>lastIndex\<close> leaves it zero when the read of the store fails,
  and sets it to the index of the snapshot when the read succeeds, whether or not entries of
  the snapshot fail.
\<close>

theorem lifecycle_misuse:
  "(lastIndex u = 0 \<longrightarrow> Start u = (Some ErrNotInitialized, u))
   \<and> (lastIndex u \<noteq> 0 \<longrightarrow> Initialize u = (Some ErrAlreadyInitialized, u))
   \<and> (\<not> watching u \<longrightarrow> Stop u = (Some ErrNotWatching, u))
   \<and> (lastIndex u \<noteq> 0 \<and> watching u \<longrightarrow> Start u = (Some ErrAlreadyWatching, u))
   \<and> Start (New flags api st path) = (Some ErrNotInitialized, New flags api st path)
   \<and> Stop (New flags api st path) = (Some ErrNotWatching, New flags api st path)
   \<and> (lastIndex u = 0 \<longrightarrow>
        (case keysGet (etcdKeys u) (store u) (cancelled u) (etcdPath u) of
           (Inl err, st) \<Rightarrow>
             fst (Initialize u) = Some (ErrEtcd err) \<and> lastIndex (snd (Initialize u)) = 0
         | (Inr resp, st) \<Rightarrow> lastIndex (snd (Initialize u)) = Index resp))"
  using Initialize_lastIndex [of u]
  by (simp add: Start_def Stop_def Initialize_def New_fresh)

text \<open>
  C5 as stated fails. A first \<open>Initialize\<close> that fails on the read of the store leaves
  the updater uninitialized, so the second call reads the snapshot instead of returning the
  already-initialized error; and that second call, although it returns an error for two
  entries of the snapshot, initializes the updater, so \<open>Start\<close> succeeds after it.
\<close>

theorem lifecycle_misuse_counterexample:
  "fst (Initialize (exampleUpdater ([Inl (ClusterError ''down''), Inr exampleSnapshot], [])))
     = Some (ErrEtcd (ClusterError ''down''))
   \<and> fst (Initialize (snd (Initialize
        (exampleUpdater ([Inl (ClusterError ''down''), Inr exampleSnapshot], [])))))
     = Some (ErrEncountered 2 [ErrFlagNotFound ''unknown'', ErrFlagValue ''invalid syntax''])
   \<and> fst (Start (snd (Initialize (snd (Initialize
        (exampleUpdater ([Inl (ClusterError ''down''), Inr exampleSnapshot], [])))))))
     = None"
  by (simp add: exampleUpdater_def New_def exampleKeys_def exampleFlags_def exampleIntSet_def HasSuffix_def HasPrefix_def TrimPrefix_def CountByte_def nodeToFlagName_def exampleSnapshot_def Initialize_def readAllFlags_def readNode_def setFlag_def
      Printf_def Start_def)

theorem lifecycle_misuse_witness:
  "lastIndex (exampleUpdater ([Inr exampleSnapshot], [])) = 0
   \<and> Start (exampleUpdater ([Inr exampleSnapshot], []))
       = (Some ErrNotInitialized, exampleUpdater ([Inr exampleSnapshot], []))
   \<and> \<not> watching (exampleUpdater ([Inr exampleSnapshot], []))
   \<and> Stop (exampleUpdater ([Inr exampleSnapshot], []))
       = (Some ErrNotWatching, exampleUpdater ([Inr exampleSnapshot], []))
   \<and> lastIndex (snd (Initialize (exampleUpdater ([Inr exampleSnapshot], [])))) = 7
   \<and> fst (Initialize (snd (Initialize (exampleUpdater ([Inr exampleSnapshot], [])))))
       = Some ErrAlreadyInitialized
   \<and> fst (Start (snd (Start (snd (Initialize (exampleUpdater ([Inr exampleSnapshot], [])))))))
       = Some ErrAlreadyWatching"
proof -
  let ?u0 = "exampleUpdater ([Inr exampleSnapshot], [])"
  let ?u1 = "snd (Initialize ?u0)"
  let ?u2 = "snd (Start ?u1)"
  have z: "lastIndex ?u0 = 0" and w: "\<not> watching ?u0"
    by (simp_all add: exampleUpdater_def New_fresh)
  have g: "keysGet (etcdKeys ?u0) (store ?u0) (cancelled ?u0) (etcdPath ?u0) = (Inr exampleSnapshot, ([], []))"
    by (simp add: exampleUpdater_def New_def exampleKeys_def exampleFlags_def exampleIntSet_def HasSuffix_def HasPrefix_def TrimPrefix_def CountByte_def nodeToFlagName_def exampleSnapshot_def)
  from lifecycle_misuse [of ?u0 exampleFlags exampleKeys "([], [])" "''/config''"] z w g
  have a: "Start ?u0 = (Some ErrNotInitialized, ?u0)" "Stop ?u0 = (Some ErrNotWatching, ?u0)"
      "lastIndex ?u1 = Index exampleSnapshot"
    by simp_all
  then have i: "lastIndex ?u1 = 7"
    by (simp add: exampleSnapshot_def)
  with lifecycle_misuse [of ?u1 exampleFlags exampleKeys "([], [])" "''/config''"] have b: "fst (Initialize ?u1) = Some ErrAlreadyInitialized"
    by simp
  have "watching ?u2 \<and> lastIndex ?u2 \<noteq> 0"
    using i by (simp add: Start_def)
  with lifecycle_misuse [of ?u2 exampleFlags exampleKeys "([], [])" "''/config''"] have c: "fst (Start ?u2) = Some ErrAlreadyWatching"
    by simp
  from z w a i b c show ?thesis
    by simp
qed


lemma watchBody_lastIndex:
  assumes get: "\<forall>s c p resp st. keysGet (etcdKeys u) s c p = (Inr resp, st) \<longrightarrow> Index resp \<noteq> 0"
      and nxt: "\<forall>w s c resp w' st. watcherNext (etcdKeys u) w s c = (Inr resp, w', st)
             \<longrightarrow> ModifiedIndex (Node resp) \<noteq> 0"
      and idx: "lastIndex u \<noteq> 0"
  shows "lastIndex (snd (snd (watchBody w u))) \<noteq> 0"
proof (cases "fst (watcherNext (etcdKeys u) w (store u) (cancelled u))")
  case (Inr resp)
  then have "watcherNext (etcdKeys u) w (store u) (cancelled u)
      = (Inr resp, fst (snd (watcherNext (etcdKeys u) w (store u) (cancelled u))),
         snd (snd (watcherNext (etcdKeys u) w (store u) (cancelled u))))"
    by (simp add: prod_eq_iff)
  from nxt [rule_format, OF this] have "ModifiedIndex (Node resp) \<noteq> 0" .
  then show ?thesis
    using Inr
    by (simp add: watchBody_def Let_def case_prod_beta split: sum.splits option.splits)
next
  case (Inl err)
  show ?thesis
  proof (cases "err = EtcdError ErrorCodeEventIndexCleared")
    case False
    with Inl idx show ?thesis
      by (cases err) (simp_all add: watchBody_def Let_def case_prod_beta)
  next
    case True
    let ?st = "snd (snd (watcherNext (etcdKeys u) w (store u) (cancelled u)))"
    let ?u1 = "Printf (u\<lparr>store := ?st, issued := issued u @ [CallNext]\<rparr>) (LogIndexError err)"
    let ?g = "keysGet (etcdKeys u) ?st (cancelled u) (etcdPath u)"
    have "lastIndex (snd (readAllFlags ?u1 True)) \<noteq> 0"
    proof (cases "fst ?g")
      case (Inl e)
      with idx show ?thesis
        by (simp add: readAllFlags_def Let_def case_prod_beta)
    next
      case (Inr resp)
      then have "?g = (Inr resp, snd ?g)"
        by (simp add: prod_eq_iff)
      from get [rule_format, OF this] have "Index resp \<noteq> 0" .
      with Inr show ?thesis
        by (simp add: readAllFlags_def Let_def case_prod_beta)
    qed
    with Inl True show ?thesis
      by (simp add: watchBody_def Let_def case_prod_beta)
  qed
qed


lemma routineStep_frame [simp]:
  "etcdKeys (routineStep u) = etcdKeys u"
  "watching (routineStep u) = watching u"
  by (simp_all add: routineStep_def case_prod_beta split: goroutine.splits bool.splits)

lemma perform_frame [simp]:
  "etcdKeys (perform a u) = etcdKeys u"
  "watching u \<Longrightarrow> watching (perform a u)"
  by (cases a; simp add: Initialize_def Start_def Stop_def)+

lemma performAll_frame:
  "etcdKeys (performAll acts u) = etcdKeys u \<and> (watching u \<longrightarrow> watching (performAll acts u))"
  by (induction acts arbitrary: u) simp_all

lemma perform_lastIndex:
  assumes get: "\<forall>s c p resp st. keysGet (etcdKeys u) s c p = (Inr resp, st) \<longrightarrow> Index resp \<noteq> 0"
      and nxt: "\<forall>w s c resp w' st. watcherNext (etcdKeys u) w s c = (Inr resp, w', st)
             \<longrightarrow> ModifiedIndex (Node resp) \<noteq> 0"
      and idx: "lastIndex u \<noteq> 0"
  shows "lastIndex (perform a u) \<noteq> 0"
proof (cases a)
  case DoRoutine
  show ?thesis
    using idx watchBody_lastIndex [OF get nxt idx]
    by (simp add: DoRoutine routineStep_def case_prod_beta split: goroutine.splits bool.splits)
qed (use idx in \<open>simp_all add: Initialize_def Start_def Stop_def\<close>)

lemma performAll_lastIndex:
  assumes "\<forall>s c p resp st. keysGet (etcdKeys u) s c p = (Inr resp, st) \<longrightarrow> Index resp \<noteq> 0"
      and "\<forall>w s c resp w' st. watcherNext (etcdKeys u) w s c = (Inr resp, w', st)
             \<longrightarrow> ModifiedIndex (Node resp) \<noteq> 0"
      and "lastIndex u \<noteq> 0"
  shows "lastIndex (performAll acts u) \<noteq> 0"
  using assms
proof (induction acts arbitrary: u)
  case Nil
  then show ?case by simp
next
  case (Cons a acts)
  have "lastIndex (perform a u) \<noteq> 0"
    using Cons.prems by (rule perform_lastIndex)
  with Cons.prems(1,2) show ?case
    by (simp add: Cons.IH)
qed

text \<open>
  C10. After a successful \<open>Start\<close>, whatever calls of \<open>Initialize\<close>, \<open>Start\<close> and
  \<open>Stop\<close> and whatever stretches of the goroutine follow, also after the goroutine has
  left its loop on cancellation, \<open>watching\<close> stays true and \<open>Stop\<close> succeeds; and on a
  store that keeps its index contract (the index of a read and the modified index of a
  delivered change are never zero, the store counting its changes from one), \<open>Start\<close>
  fails with the already-watching error, so the updater cannot be started again.
\<close>

theorem watching_never_reset:
  assumes "Start u = (None, u1)"
  shows "watching (performAll acts u1)
       \<and> fst (Stop (performAll acts u1)) = None
       \<and> ((\<forall>s c p resp st. keysGet (etcdKeys u) s c p = (Inr resp, st) \<longrightarrow> Index resp \<noteq> 0)
           \<and> (\<forall>w s c resp w' st. watcherNext (etcdKeys u) w s c = (Inr resp, w', st)
                  \<longrightarrow> ModifiedIndex (Node resp) \<noteq> 0)
           \<longrightarrow> fst (Start (performAll acts u1)) = Some ErrAlreadyWatching)"
proof -
  from assms have u1: "watching u1" "lastIndex u1 \<noteq> 0" "etcdKeys u1 = etcdKeys u"
    by (auto simp: Start_def split: if_splits)
  then have w: "watching (performAll acts u1)"
    using performAll_frame [of acts u1] by simp
  have "lastIndex (performAll acts u1) \<noteq> 0"
    if "\<forall>s c p resp st. keysGet (etcdKeys u) s c p = (Inr resp, st) \<longrightarrow> Index resp \<noteq> 0"
      and "\<forall>w s c resp w' st. watcherNext (etcdKeys u) w s c = (Inr resp, w', st)
             \<longrightarrow> ModifiedIndex (Node resp) \<noteq> 0"
    using that u1 performAll_lastIndex [of u1 acts] by simp
  with w show ?thesis
    by (auto simp: Start_def Stop_def)
qed

theorem watching_never_reset_witness:
  "fst (Start steadyUpdater) = None
   \<and> routine (performAll [DoRoutine, DoRoutine, DoStop, DoRoutine] (snd (Start steadyUpdater))) = Returned
   \<and> watching (performAll [DoRoutine, DoRoutine, DoStop, DoRoutine] (snd (Start steadyUpdater)))
   \<and> fst (Stop (performAll [DoRoutine, DoRoutine, DoStop, DoRoutine] (snd (Start steadyUpdater)))) = None
   \<and> fst (Start (performAll [DoRoutine, DoRoutine, DoStop, DoRoutine] (snd (Start steadyUpdater))))
       = Some ErrAlreadyWatching"
proof -
  have k: "etcdKeys steadyUpdater = steadyKeys"
    by (simp add: steadyUpdater_def Initialize_def New_def Let_def)
  have s: "fst (Start steadyUpdater) = None"
    by (simp add: steadyUpdater_def steadyKeys_def New_def exampleFlags_def exampleIntSet_def HasSuffix_def HasPrefix_def TrimPrefix_def CountByte_def nodeToFlagName_def Initialize_def readAllFlags_def Start_def)
  then have st: "Start steadyUpdater = (None, snd (Start steadyUpdater))"
    by (simp add: prod_eq_iff)
  have get: "\<forall>s c p resp st. keysGet (etcdKeys steadyUpdater) s c p = (Inr resp, st) \<longrightarrow> Index resp \<noteq> 0"
    unfolding k by (auto simp: steadyKeys_def)
  have nxt: "\<forall>w s c resp w' st. watcherNext (etcdKeys steadyUpdater) w s c = (Inr resp, w', st)
      \<longrightarrow> ModifiedIndex (Node resp) \<noteq> 0"
    unfolding k by (auto simp: steadyKeys_def split: if_splits)
  have r: "routine (performAll [DoRoutine, DoRoutine, DoStop, DoRoutine] (snd (Start steadyUpdater))) = Returned"
    by (simp add: steadyUpdater_def steadyKeys_def New_def exampleFlags_def exampleIntSet_def HasSuffix_def HasPrefix_def TrimPrefix_def CountByte_def nodeToFlagName_def Initialize_def readAllFlags_def Start_def Stop_def routineStep_def
        Printf_def watchBody_def setFlag_def)
  from watching_never_reset [OF st, of "[DoRoutine, DoRoutine, DoStop, DoRoutine]"] get nxt s r
  show ?thesis
    by blast
qed

end
